theory Spec2Isabelle
  imports Complex_Main
begin

section \<open>JavaScript string primitives\<close>

text \<open>
  Strings are lists of characters. The source only ever searches for ASCII patterns, so
  the character classes and the case mappings below are the ASCII ones; a character
  outside ASCII is left as it is.
\<close>

definition upperLetters :: string where
  "upperLetters = ''ABCDEFGHIJKLMNOPQRSTUVWXYZ''"

definition lowerLetters :: string where
  "lowerLetters = ''abcdefghijklmnopqrstuvwxyz''"

definition lowerChar :: "char \<Rightarrow> char" where
  "lowerChar c = (case map_of (zip upperLetters lowerLetters) c of Some l \<Rightarrow> l | None \<Rightarrow> c)"

definition upperChar :: "char \<Rightarrow> char" where
  "upperChar c = (case map_of (zip lowerLetters upperLetters) c of Some u \<Rightarrow> u | None \<Rightarrow> c)"

definition toLowerCase :: "string \<Rightarrow> string" where
  "toLowerCase s = map lowerChar s"

definition toUpperCase :: "string \<Rightarrow> string" where
  "toUpperCase s = map upperChar s"

fun startsWith :: "string \<Rightarrow> string \<Rightarrow> bool" where
  "startsWith s [] = True"
| "startsWith [] (p # ps) = False"
| "startsWith (c # cs) (p # ps) = (c = p \<and> startsWith cs ps)"

text \<open>\<open>s.includes(p)\<close>: \<open>p\<close> occurs in \<open>s\<close> as a contiguous substring.\<close>

fun str_includes :: "string \<Rightarrow> string \<Rightarrow> bool" where
  "str_includes [] p = (p = [])"
| "str_includes (c # cs) p = (startsWith (c # cs) p \<or> str_includes cs p)"

text \<open>
  The character classes of the source's regular expressions: digits, word characters and
  white space.
\<close>

definition isDigit :: "char \<Rightarrow> bool" where
  "isDigit c = (c \<in> set ''0123456789'')"

definition isWordChar :: "char \<Rightarrow> bool" where
  "isWordChar c = (c \<in> set upperLetters \<or> c \<in> set lowerLetters \<or> isDigit c \<or> c = CHR ''_'')"

definition isSpace :: "char \<Rightarrow> bool" where
  "isSpace c = (c \<in> set [CHR 0x09, CHR 0x0A, CHR 0x0B, CHR 0x0C, CHR 0x0D, CHR '' ''])"

text \<open>\<open>s.trim()\<close>.\<close>

definition trim :: "string \<Rightarrow> string" where
  "trim s = rev (dropWhile isSpace (rev (dropWhile isSpace s)))"

text \<open>
  \<open>s.replace(/X+/g, r)\<close> for a character class \<open>X\<close>: every maximal run of characters of
  the class becomes one \<open>r\<close>.
\<close>

function replaceRuns :: "(char \<Rightarrow> bool) \<Rightarrow> string \<Rightarrow> string \<Rightarrow> string" where
  "replaceRuns cls r [] = []"
| "replaceRuns cls r (c # cs) =
     (if cls c then r @ replaceRuns cls r (dropWhile cls cs) else c # replaceRuns cls r cs)"
  by pat_completeness auto
termination
  by (relation "measure (\<lambda>(cls, r, s). length s)")
     (auto simp add: less_Suc_eq_le length_dropWhile_le)

text \<open>The value of a string of decimal digits.\<close>

definition digitValue :: "char \<Rightarrow> int" where
  "digitValue c = (case map_of (zip ''0123456789'' [0, 1, 2, 3, 4, 5, 6, 7, 8, 9]) c of
                     Some d \<Rightarrow> d | None \<Rightarrow> 0)"

definition digitsValue :: "string \<Rightarrow> int" where
  "digitsValue ds = foldl (\<lambda>acc d. 10 * acc + digitValue d) 0 ds"

text \<open>
  \<open>parseInt(s)\<close> and \<open>parseFloat(s)\<close> for a string \<open>s\<close> that holds digits (and, for
  \<open>parseFloat\<close>, dots) only, which is all the source passes them. \<open>None\<close> is \<open>NaN\<close>.
  The value is exact: the rounding to an IEEE double is not modelled.
\<close>

definition parseIntDigits :: "string \<Rightarrow> int option" where
  "parseIntDigits s = (if s = [] then None else Some (digitsValue s))"

definition parseFloatDigits :: "string \<Rightarrow> rat option" where
  "parseFloatDigits s =
     (let whole = takeWhile isDigit s;
          rest = dropWhile isDigit s;
          frac = (case rest of [] \<Rightarrow> [] | c # cs \<Rightarrow> if c = CHR ''.'' then takeWhile isDigit cs else [])
      in if whole = [] \<and> frac = [] then None
         else Some (of_int (digitsValue whole) + of_int (digitsValue frac) / 10 ^ length frac))"

section \<open>Retry handler (retry-handler.ts)\<close>

datatype ErrorType = NETWORK | TIMEOUT | CAPTCHA | BLOCKED | RATE_LIMITED | PARSING | UNKNOWN

text \<open>
  The delays are JavaScript numbers, IEEE doubles, and the arithmetic on them belongs to
  the runtime: it rounds, overflows to \<open>Infinity\<close> and yields \<open>NaN\<close>, and \<open>Math.pow\<close> is
  only approximated. So a double is a value of a type \<open>'d\<close> that is left open, and the
  operations \<open>calculateDelay\<close> uses are parameters: the product \<open>x * y\<close>, the sum
  \<open>x + y\<close>, \<open>Math.pow(x, n)\<close> for a whole \<open>n\<close>, \<open>Math.min(x, y)\<close> and the literal \<open>0.1\<close>.
\<close>

record 'd Arith =
  d_mul :: "'d \<Rightarrow> 'd \<Rightarrow> 'd"
  d_add :: "'d \<Rightarrow> 'd \<Rightarrow> 'd"
  d_pow :: "'d \<Rightarrow> nat \<Rightarrow> 'd"
  d_min :: "'d \<Rightarrow> 'd \<Rightarrow> 'd"
  d_tenth :: 'd

text \<open>
  Arithmetic without rounding on the reals, for the scenarios. On whole numbers of
  moderate size the operations on doubles agree with it.
\<close>

definition exactArith :: "real Arith" where
  "exactArith =
     \<lparr> d_mul = (\<lambda>x y. x * y), d_add = (\<lambda>x y. x + y), d_pow = (\<lambda>x n. x ^ n),
       d_min = (\<lambda>x y. min x y), d_tenth = 1 / 10 \<rparr>"

text \<open>
  \<open>Required<RetryConfig>\<close> without its two callbacks, which only observe the run.
  \<open>maxRetries\<close> is an integer. The default delays are whole numbers, written as the reals
  they are.
\<close>

record 'd RetryConfig =
  maxRetries :: int
  baseDelay :: 'd
  maxDelay :: 'd
  backoffMultiplier :: 'd
  retryableErrors :: "string list"

definition defaultConfig :: "real RetryConfig" where
  "defaultConfig =
     \<lparr> maxRetries = 3, baseDelay = 1000, maxDelay = 30000, backoffMultiplier = 2,
       retryableErrors =
         [''net::ERR_NETWORK_CHANGED'', ''net::ERR_CONNECTION_RESET'',
          ''net::ERR_CONNECTION_REFUSED'', ''net::ERR_TIMED_OUT'',
          ''TimeoutError'', ''ProtocolError''] \<rparr>"

text \<open>\<open>classifyError\<close>, on the error's message. The branches stand in the source's order.\<close>

definition classifyError :: "string \<Rightarrow> ErrorType" where
  "classifyError msg =
     (let message = toLowerCase msg in
      if str_includes message ''timeout'' \<or> str_includes message ''timed out'' then TIMEOUT
      else if str_includes message ''network'' \<or> str_includes message ''connection''
              \<or> str_includes message ''net::err'' then NETWORK
      else if str_includes message ''captcha'' \<or> str_includes message ''recaptcha'' then CAPTCHA
      else if str_includes message ''blocked'' \<or> str_includes message ''access denied''
              \<or> str_includes message ''403'' \<or> str_includes message ''rate limit'' then BLOCKED
      else if str_includes message ''rate limit'' \<or> str_includes message ''too many requests''
              \<or> str_includes message ''429'' then RATE_LIMITED
      else if str_includes message ''parse'' \<or> str_includes message ''extract''
              \<or> str_includes message ''selector'' then PARSING
      else UNKNOWN)"

fun retryableType :: "ErrorType \<Rightarrow> bool" where
  "retryableType NETWORK = True"
| "retryableType TIMEOUT = True"
| "retryableType RATE_LIMITED = True"
| "retryableType CAPTCHA = False"
| "retryableType BLOCKED = False"
| "retryableType PARSING = False"
| "retryableType UNKNOWN = True"

definition isRetryableError :: "string \<Rightarrow> 'd RetryConfig \<Rightarrow> ErrorType \<Rightarrow> bool" where
  "isRetryableError msg config errorType =
     (let isConfiguredRetryable = list_ex (\<lambda>pattern. str_includes msg pattern) (retryableErrors config)
      in if isConfiguredRetryable then True else retryableType errorType)"

text \<open>
  \<open>calculateDelay(attempt, config)\<close> under the arithmetic \<open>ar\<close>. \<open>rnd\<close> is the double
  \<open>Math.random()\<close> returns. \<open>exponentialDelay\<close> and \<open>jitter\<close> are the source's locals of
  those names: the delay before jitter, and \<open>Math.random() * 0.1 * exponentialDelay\<close>,
  which JavaScript groups from the left.
\<close>

definition exponentialDelay :: "'d Arith \<Rightarrow> nat \<Rightarrow> 'd RetryConfig \<Rightarrow> 'd" where
  "exponentialDelay ar attempt config =
     d_mul ar (baseDelay config) (d_pow ar (backoffMultiplier config) attempt)"

definition jitter :: "'d Arith \<Rightarrow> nat \<Rightarrow> 'd RetryConfig \<Rightarrow> 'd \<Rightarrow> 'd" where
  "jitter ar attempt config rnd =
     d_mul ar (d_mul ar rnd (d_tenth ar)) (exponentialDelay ar attempt config)"

definition calculateDelay :: "'d Arith \<Rightarrow> nat \<Rightarrow> 'd RetryConfig \<Rightarrow> 'd \<Rightarrow> 'd" where
  "calculateDelay ar attempt config rnd =
     (let totalDelay = d_add ar (exponentialDelay ar attempt config) (jitter ar attempt config rnd)
      in d_min ar totalDelay (maxDelay config))"

text \<open>
  What the runtime's arithmetic is asked for in the properties below. \<open>val\<close> reads a
  finite double as the real it denotes and \<open>fl\<close> is the rounding of the runtime.
  \<open>roundedProduct\<close>: the product of \<open>x\<close> and \<open>y\<close> is the rounded exact product (it neither
  overflows nor is \<open>NaN\<close>). \<open>exactProduct\<close> and \<open>exactPower\<close>: the product, the power, is
  computed without rounding, as it is on whole numbers of moderate size.
\<close>

definition roundedProduct :: "'d Arith \<Rightarrow> ('d \<Rightarrow> real) \<Rightarrow> (real \<Rightarrow> real) \<Rightarrow> 'd \<Rightarrow> 'd \<Rightarrow> bool" where
  "roundedProduct ar val fl x y = (val (d_mul ar x y) = fl (val x * val y))"

definition exactProduct :: "'d Arith \<Rightarrow> ('d \<Rightarrow> real) \<Rightarrow> 'd \<Rightarrow> 'd \<Rightarrow> bool" where
  "exactProduct ar val x y = (val (d_mul ar x y) = val x * val y)"

definition exactPower :: "'d Arith \<Rightarrow> ('d \<Rightarrow> real) \<Rightarrow> 'd \<Rightarrow> nat \<Rightarrow> bool" where
  "exactPower ar val x n = (val (d_pow ar x n) = val x ^ n)"

text \<open>
  \<open>RetryResult<T>\<close> without \<open>totalTime\<close> (wall-clock time). An error is its message.
\<close>

record 'a RetryResult =
  success :: bool
  data :: "'a option"
  error :: "string option"
  attempts :: int

text \<open>
  What one run of \<open>executeWithRetry\<close> does besides returning: how often it invoked the
  operation and the delays it slept, in order.
\<close>

record ('a, 'd) RetryRun =
  result :: "'a RetryResult"
  invocations :: nat
  sleeps :: "'d list"

text \<open>
  The \<open>for\<close> loop of \<open>executeWithRetry\<close>, from \<open>attempt\<close> on, under the arithmetic \<open>ar\<close>.
  \<open>operation n\<close> is the
  outcome of the \<open>n\<close>-th invocation of the operation (\<open>Inl\<close> the message of the error it
  throws, \<open>Inr\<close> the value it resolves to), \<open>rnd n\<close> the random number drawn after the
  \<open>n\<close>-th failure. \<open>lastError\<close>, \<open>calls\<close> and \<open>slept\<close> are the loop's state so far.
\<close>

function retryLoop ::
  "'d Arith \<Rightarrow> 'd RetryConfig \<Rightarrow> (nat \<Rightarrow> string + 'a) \<Rightarrow> (nat \<Rightarrow> 'd) \<Rightarrow> int
     \<Rightarrow> string option \<Rightarrow> nat \<Rightarrow> 'd list \<Rightarrow> ('a, 'd) RetryRun" where
  "retryLoop ar config operation rnd attempt lastError calls slept =
     (if attempt \<le> maxRetries config + 1 then
        (case operation (Suc calls) of
           Inr d \<Rightarrow>
             \<lparr> result = \<lparr> success = True, data = Some d, error = None, attempts = attempt \<rparr>,
               invocations = Suc calls, sleeps = slept \<rparr>
         | Inl e \<Rightarrow>
             if attempt > maxRetries config then
               \<lparr> result = \<lparr> success = False, data = None, error = Some e,
                            attempts = maxRetries config + 1 \<rparr>,
                 invocations = Suc calls, sleeps = slept \<rparr>
             else if \<not> isRetryableError e config (classifyError e) then
               \<lparr> result = \<lparr> success = False, data = None, error = Some e,
                            attempts = maxRetries config + 1 \<rparr>,
                 invocations = Suc calls, sleeps = slept \<rparr>
             else
               retryLoop ar config operation rnd (attempt + 1) (Some e) (Suc calls)
                 (slept @ [calculateDelay ar (nat (attempt - 1)) config (rnd (Suc calls))]))
      else
        \<lparr> result = \<lparr> success = False, data = None, error = lastError,
                     attempts = maxRetries config + 1 \<rparr>,
          invocations = calls, sleeps = slept \<rparr>)"
  by pat_completeness auto
termination
  by (relation "measure (\<lambda>(ar, config, operation, rnd, attempt, lastError, calls, slept).
        nat (maxRetries config + 2 - attempt))") auto

definition executeWithRetry ::
  "'d Arith \<Rightarrow> 'd RetryConfig \<Rightarrow> (nat \<Rightarrow> string + 'a) \<Rightarrow> (nat \<Rightarrow> 'd) \<Rightarrow> ('a, 'd) RetryRun" where
  "executeWithRetry ar config operation rnd = retryLoop ar config operation rnd 1 None 0 []"

subsection \<open>Circuit breaker (createCircuitBreaker)\<close>

datatype BreakerState = CLOSED | OPEN | HALF_OPEN

text \<open>The three variables the closure captures.\<close>

record CircuitBreaker =
  failures :: int
  lastFailureTime :: int
  state :: BreakerState

definition createCircuitBreaker :: CircuitBreaker where
  "createCircuitBreaker = \<lparr> failures = 0, lastFailureTime = 0, state = CLOSED \<rparr>"

text \<open>
  What one call of \<open>execute\<close> does: the breaker afterwards, whether the wrapped operation
  was invoked, and what the call resolves to (\<open>Inl\<close> the message of the error thrown).
\<close>

record 'a ExecuteOutcome =
  breaker :: CircuitBreaker
  invoked :: bool
  outcome :: "string + 'a"

text \<open>
  \<open>execute(operation)\<close>. \<open>now\<close> is the clock when the call starts, \<open>operation\<close> the outcome
  of the wrapped operation if it is invoked, \<open>failTime\<close> the clock when the \<open>catch\<close> block
  runs. \<open>maxFailures\<close> and \<open>resetTimeout\<close> are the arguments of \<open>createCircuitBreaker\<close>.
\<close>

definition execute ::
  "int \<Rightarrow> int \<Rightarrow> CircuitBreaker \<Rightarrow> int \<Rightarrow> string + 'a \<Rightarrow> int \<Rightarrow> 'a ExecuteOutcome" where
  "execute maxFailures resetTimeout b now operation failTime =
     (let b1 = (if state b = OPEN \<and> now - lastFailureTime b > resetTimeout
                then b\<lparr> state := HALF_OPEN, failures := 0 \<rparr> else b)
      in if state b1 = OPEN then
           \<lparr> breaker = b1, invoked = False,
             outcome = Inl ''Circuit breaker is open - too many recent failures'' \<rparr>
         else
           (case operation of
              Inr r \<Rightarrow>
                \<lparr> breaker = (if state b1 = HALF_OPEN then b1\<lparr> state := CLOSED, failures := 0 \<rparr> else b1),
                  invoked = True, outcome = Inr r \<rparr>
            | Inl e \<Rightarrow>
                (let b2 = b1\<lparr> failures := failures b1 + 1, lastFailureTime := failTime \<rparr>;
                     b3 = (if failures b2 \<ge> maxFailures then b2\<lparr> state := OPEN \<rparr> else b2)
                 in \<lparr> breaker = b3, invoked = True, outcome = Inl e \<rparr>)))"

text \<open>
  A sequence of calls on one breaker, each given as (clock at the call, outcome of the
  operation, clock at the catch block): the breaker after them.
\<close>

fun executeAll ::
  "int \<Rightarrow> int \<Rightarrow> CircuitBreaker \<Rightarrow> (int \<times> (string + 'a) \<times> int) list \<Rightarrow> CircuitBreaker" where
  "executeAll maxFailures resetTimeout b [] = b"
| "executeAll maxFailures resetTimeout b ((now, operation, failTime) # calls) =
     executeAll maxFailures resetTimeout
       (breaker (execute maxFailures resetTimeout b now operation failTime)) calls"

section \<open>Rate limiter (rate-limiter.ts)\<close>

record RateLimiter =
  requests :: "int list"
  maxRequests :: int
  windowMs :: int

definition newRateLimiter :: "int \<Rightarrow> int \<Rightarrow> RateLimiter" where
  "newRateLimiter maxReq window = \<lparr> requests = [], maxRequests = maxReq, windowMs = window \<rparr>"

text \<open>
  The timer \<open>wait\<close> sleeps on: none, one of \<open>waitTime\<close> milliseconds, or one of an infinite
  \<open>waitTime\<close> (\<open>Math.min()\<close> of no argument is \<open>Infinity\<close>).
\<close>

datatype Timer = NoTimer | Timer int | TimerInfinity

text \<open>
  \<open>wait()\<close> called when the clock reads \<open>now\<close>: the limiter afterwards and the timer the
  call slept on. The calls of one limiter are taken one after the other.
\<close>

definition wait :: "RateLimiter \<Rightarrow> int \<Rightarrow> RateLimiter \<times> Timer" where
  "wait rl now =
     (let reqs = filter (\<lambda>timestamp. now - timestamp < windowMs rl) (requests rl);
          timer =
            (if int (length reqs) \<ge> maxRequests rl then
               (case reqs of
                  [] \<Rightarrow> TimerInfinity
                | r # rs \<Rightarrow>
                    (let oldestRequest = fold min rs r;
                         waitTime = windowMs rl - (now - oldestRequest)
                     in if waitTime > 0 then Timer waitTime else NoTimer))
             else NoTimer)
      in (rl\<lparr> requests := reqs @ [now] \<rparr>, timer))"

text \<open>The clock when a call of \<open>wait\<close> made at \<open>now\<close> returns, for a finite timer.\<close>

fun returnsAt :: "int \<Rightarrow> Timer \<Rightarrow> int option" where
  "returnsAt now NoTimer = Some now"
| "returnsAt now (Timer waitTime) = Some (now + waitTime)"
| "returnsAt now TimerInfinity = None"

text \<open>\<open>getRemainingRequests()\<close> at clock \<open>now\<close>.\<close>

definition getRemainingRequests :: "RateLimiter \<Rightarrow> int \<Rightarrow> RateLimiter \<times> int" where
  "getRemainingRequests rl now =
     (let reqs = filter (\<lambda>timestamp. now - timestamp < windowMs rl) (requests rl)
      in (rl\<lparr> requests := reqs \<rparr>, max 0 (maxRequests rl - int (length reqs))))"

text \<open>The recorded timestamps inside the trailing window that ends at clock \<open>t\<close>.\<close>

definition inWindow :: "RateLimiter \<Rightarrow> int \<Rightarrow> int list" where
  "inWindow rl t = filter (\<lambda>timestamp. t - timestamp < windowMs rl) (requests rl)"

section \<open>Data processor (data-processor.ts)\<close>

text \<open>
  \<open>RawListingData\<close>: the fields that decide whether a record is accepted, rejected or a
  duplicate, and which warnings it gets. An absent (\<open>undefined\<close>) field is \<open>None\<close>. The
  fields the processor only copies into the entity (\<open>listedDate\<close>, \<open>features\<close>,
  \<open>images\<close>, contact and broker data) are left out, and with them the entity's \<open>state\<close>,
  \<open>city\<close>, \<open>listedDate\<close>, \<open>features\<close>, \<open>imageUrls\<close>, \<open>sellerFinancing\<close> and
  \<open>listingUrl\<close>: no branch of \<open>processListing\<close> reads them. The field names carry the
  prefix \<open>raw_\<close> to keep them apart from the cleaned fields of the same names.
\<close>

record RawListingData =
  raw_title :: "string option"
  raw_askingPrice :: "string option"
  raw_revenue :: "string option"
  raw_cashFlow :: "string option"
  raw_location :: "string option"
  raw_industry :: "string option"
  raw_description :: "string option"
  raw_established :: "string option"
  raw_employees :: "string option"
  raw_listingId :: "string option"
  raw_url :: "string option"

text \<open>\<open>Partial<BusinessListing>\<close>, what \<open>cleanRawData\<close> returns.\<close>

record CleanedListing =
  title :: "string option"
  bizBuySellId :: "string option"
  askingPrice :: "rat option"
  revenue :: "rat option"
  cashFlow :: "rat option"
  location :: "string option"
  industry :: "string option"
  description :: "string option"
  established :: "int option"
  employees :: "int option"

text \<open>\<open>BusinessListing\<close>, the canonical entity (field names with the prefix \<open>bl_\<close>).\<close>

record BusinessListing =
  bl_title :: string
  bl_bizBuySellId :: string
  bl_location :: string
  bl_industry :: string
  bl_description :: string
  bl_askingPrice :: "rat option"
  bl_revenue :: "rat option"
  bl_cashFlow :: "rat option"
  bl_employees :: "int option"
  bl_established :: "int option"

text \<open>
  The warnings of \<open>validateData\<close>. Two of the source's messages embed a number; the
  constructor carries it.
\<close>

datatype Warning =
    IndustryNotSpecified
  | DescriptionNotAvailable
  | RevenueNegative
  | AskingPriceUnusuallyHigh
  | CashFlowHigherThanRevenue
  | EstablishedUnrealistic int
  | EmployeeCountUnusuallyHigh int

text \<open>
  JavaScript truthiness of an optional string: present and not empty. (An optional number
  is truthy when it is present and not zero; the tests below write that out.)
\<close>

definition truthyString :: "string option \<Rightarrow> bool" where
  "truthyString s = (case s of None \<Rightarrow> False | Some v \<Rightarrow> v \<noteq> [])"

definition cleanTitle :: "string \<Rightarrow> string" where
  "cleanTitle t =
     take 200
       (rev (dropWhile (\<lambda>c. \<not> isWordChar c)
          (rev (dropWhile (\<lambda>c. \<not> isWordChar c) (replaceRuns isSpace '' '' (trim t))))))"

definition cleanListingId :: "string \<Rightarrow> string" where
  "cleanListingId ident = toUpperCase (filter (\<lambda>c. isWordChar c \<or> c = CHR ''-'') ident)"

text \<open>
  The patterns of \<open>extractIdFromUrl\<close> are a literal \<open>pre\<close>, one or more digits (captured)
  and a literal \<open>post\<close>. A match at the start of \<open>s\<close>, and the leftmost match anywhere in
  \<open>s\<close>, as \<open>String.match\<close> finds it: the digits captured.
\<close>

definition matchDigitsHere :: "string \<Rightarrow> string \<Rightarrow> string \<Rightarrow> string option" where
  "matchDigitsHere pre post s =
     (if startsWith s pre then
        (let rest = drop (length pre) s; ds = takeWhile isDigit rest
         in if ds \<noteq> [] \<and> startsWith (dropWhile isDigit rest) post then Some ds else None)
      else None)"

fun matchDigits :: "string \<Rightarrow> string \<Rightarrow> string \<Rightarrow> string option" where
  "matchDigits pre post [] = matchDigitsHere pre post []"
| "matchDigits pre post (c # cs) =
     (case matchDigitsHere pre post (c # cs) of
        Some ds \<Rightarrow> Some ds
      | None \<Rightarrow> matchDigits pre post cs)"

fun firstMatch :: "(string \<times> string) list \<Rightarrow> string \<Rightarrow> string option" where
  "firstMatch [] url = None"
| "firstMatch ((pre, post) # patterns) url =
     (case matchDigits pre post url of
        Some ds \<Rightarrow> Some (''BBS'' @ ds)
      | None \<Rightarrow> firstMatch patterns url)"

definition extractIdFromUrl :: "string \<Rightarrow> string option" where
  "extractIdFromUrl url =
     firstMatch
       [(''/business/'', ''-''), (''/listing/'', []), (''/'', ''/business''), (''id='', [])] url"

definition parsePrice :: "string \<Rightarrow> rat option" where
  "parsePrice priceStr = parseFloatDigits (filter (\<lambda>c. isDigit c \<or> c = CHR ''.'') priceStr)"

definition industryMap :: "(string \<times> string) list" where
  "industryMap =
     [(''restaurant'', ''restaurants''), (''restaurants'', ''restaurants''),
      (''food-service'', ''restaurants''), (''automotive'', ''automotive''),
      (''auto'', ''automotive''), (''retail'', ''retail''),
      (''healthcare'', ''healthcare-medical''), (''medical'', ''healthcare-medical''),
      (''technology'', ''internet-technology''), (''tech'', ''internet-technology''),
      (''it'', ''internet-technology''), (''construction'', ''construction''),
      (''manufacturing'', ''manufacturing''), (''real-estate'', ''real-estate''),
      (''realty'', ''real-estate''), (''business-services'', ''business-services''),
      (''services'', ''business-services'')]"

text \<open>
  \<open>cleanIndustry\<close>. The lookup \<open>industryMap[cleaned]\<close> is taken in the table's own entries.
\<close>

definition cleanIndustry :: "string \<Rightarrow> string" where
  "cleanIndustry ind =
     (let cleaned = replaceRuns isSpace ''-''
            (filter (\<lambda>c. isWordChar c \<or> isSpace c \<or> c = CHR ''-'') (toLowerCase (trim ind)))
      in case map_of industryMap cleaned of Some v \<Rightarrow> v | None \<Rightarrow> cleaned)"

definition cleanDescription :: "string \<Rightarrow> string" where
  "cleanDescription d =
     take 2000 (replaceRuns (\<lambda>c. c = CHR 0x0A) '' '' (replaceRuns isSpace '' '' (trim d)))"

text \<open>\<open>currentYear\<close> is \<open>new Date().getFullYear()\<close>.\<close>

definition parseYear :: "int \<Rightarrow> string \<Rightarrow> int option" where
  "parseYear currentYear yearStr =
     (case parseIntDigits (filter isDigit yearStr) of
        None \<Rightarrow> None
      | Some year \<Rightarrow> if year \<ge> 1800 \<and> year \<le> currentYear then Some year else None)"

definition parseNumber :: "string \<Rightarrow> int option" where
  "parseNumber numStr = parseIntDigits (filter isDigit numStr)"

definition cleanRawData :: "int \<Rightarrow> RawListingData \<Rightarrow> CleanedListing" where
  "cleanRawData currentYear raw =
     \<lparr> title =
         (case raw_title raw of
            None \<Rightarrow> None
          | Some t \<Rightarrow> if trim t \<noteq> [] then Some (cleanTitle t) else None),
       bizBuySellId =
         (if truthyString (raw_listingId raw) then map_option cleanListingId (raw_listingId raw)
          else if truthyString (raw_url raw) then
            (case raw_url raw of None \<Rightarrow> None | Some u \<Rightarrow> extractIdFromUrl u)
          else None),
       askingPrice =
         (case raw_askingPrice raw of
            None \<Rightarrow> None
          | Some p \<Rightarrow> if p \<noteq> [] then parsePrice p else None),
       revenue =
         (case raw_revenue raw of
            None \<Rightarrow> None
          | Some p \<Rightarrow> if p \<noteq> [] then parsePrice p else None),
       cashFlow =
         (case raw_cashFlow raw of
            None \<Rightarrow> None
          | Some p \<Rightarrow> if p \<noteq> [] then parsePrice p else None),
       location =
         (case raw_location raw of
            None \<Rightarrow> None
          | Some l \<Rightarrow> if trim l \<noteq> [] then Some (trim l) else None),
       industry =
         (case raw_industry raw of
            None \<Rightarrow> None
          | Some i \<Rightarrow> if trim i \<noteq> [] then Some (cleanIndustry i) else None),
       description =
         (case raw_description raw of
            None \<Rightarrow> None
          | Some d \<Rightarrow> if trim d \<noteq> [] then Some (cleanDescription d) else None),
       established =
         (case raw_established raw of
            None \<Rightarrow> None
          | Some y \<Rightarrow> if y \<noteq> [] then parseYear currentYear y else None),
       employees =
         (case raw_employees raw of
            None \<Rightarrow> None
          | Some n \<Rightarrow> if n \<noteq> [] then parseNumber n else None) \<rparr>"

text \<open>What \<open>validateData\<close> returns. \<open>v_data\<close> is set exactly when \<open>isValid\<close> is.\<close>

record ValidationResult =
  isValid :: bool
  v_data :: "BusinessListing option"
  v_errors :: "string list"
  v_warnings :: "Warning list"

definition validationErrors :: "CleanedListing \<Rightarrow> string list" where
  "validationErrors d =
     (if \<not> truthyString (title d) then [''Title is required''] else [])
     @ (if \<not> truthyString (bizBuySellId d) then [''Listing ID is required''] else [])
     @ (if \<not> truthyString (location d) then [''Location is required''] else [])
     @ (case askingPrice d of
          None \<Rightarrow> []
        | Some a \<Rightarrow> if a \<noteq> 0 \<and> a < 0 then [''Asking price cannot be negative''] else [])"

definition validationWarnings :: "int \<Rightarrow> CleanedListing \<Rightarrow> Warning list" where
  "validationWarnings currentYear d =
     (if \<not> truthyString (industry d) then [IndustryNotSpecified] else [])
     @ (if \<not> truthyString (description d) then [DescriptionNotAvailable] else [])
     @ (case revenue d of
          None \<Rightarrow> []
        | Some r \<Rightarrow> if r \<noteq> 0 \<and> r < 0 then [RevenueNegative] else [])
     @ (case (askingPrice d, revenue d) of
          (Some a, Some r) \<Rightarrow>
            if a \<noteq> 0 \<and> r \<noteq> 0 \<and> a > r * 20 then [AskingPriceUnusuallyHigh] else []
        | _ \<Rightarrow> [])
     @ (case (cashFlow d, revenue d) of
          (Some c, Some r) \<Rightarrow>
            if c \<noteq> 0 \<and> r \<noteq> 0 \<and> c > r then [CashFlowHigherThanRevenue] else []
        | _ \<Rightarrow> [])
     @ (case established d of
          None \<Rightarrow> []
        | Some y \<Rightarrow>
            if y \<noteq> 0 \<and> (y < 1800 \<or> y > currentYear) then [EstablishedUnrealistic y] else [])
     @ (case employees d of
          None \<Rightarrow> []
        | Some n \<Rightarrow> if n \<noteq> 0 \<and> n > 10000 then [EmployeeCountUnusuallyHigh n] else [])"

text \<open>
  \<open>validateData\<close>. The three required fields are present when there is no error, so the
  defaults written for them below are never used.
\<close>

definition validateData :: "int \<Rightarrow> CleanedListing \<Rightarrow> ValidationResult" where
  "validateData currentYear d =
     (let errs = validationErrors d; warns = validationWarnings currentYear d
      in if errs = [] then
           \<lparr> isValid = True,
             v_data = Some
               \<lparr> bl_title = (case title d of Some t \<Rightarrow> t | None \<Rightarrow> []),
                 bl_bizBuySellId = (case bizBuySellId d of Some i \<Rightarrow> i | None \<Rightarrow> []),
                 bl_location = (case location d of Some l \<Rightarrow> l | None \<Rightarrow> []),
                 bl_industry = (if truthyString (industry d)
                                then (case industry d of Some i \<Rightarrow> i | None \<Rightarrow> []) else ''other''),
                 bl_description = (case description d of Some t \<Rightarrow> t | None \<Rightarrow> []),
                 bl_askingPrice = askingPrice d,
                 bl_revenue = revenue d,
                 bl_cashFlow = cashFlow d,
                 bl_employees = employees d,
                 bl_established = established d \<rparr>,
             v_errors = [], v_warnings = warns \<rparr>
         else \<lparr> isValid = False, v_data = None, v_errors = errs, v_warnings = warns \<rparr>)"

text \<open>\<open>ProcessingStats\<close>; its \<open>warnings\<close> counter is \<open>warningsCount\<close> here.\<close>

record ProcessingStats =
  totalProcessed :: nat
  successful :: nat
  failed :: nat
  warningsCount :: nat
  duplicates :: nat

text \<open>\<open>ProcessingResult\<close> (its \<open>success\<close> and \<open>data\<close> carry the prefix \<open>p_\<close>).\<close>

record ProcessingResult =
  p_success :: bool
  p_data :: "BusinessListing option"
  errors :: "string list"
  warnings :: "Warning list"
  originalData :: RawListingData

text \<open>The processor's state: the ids seen in this run and the statistics.\<close>

record DataProcessor =
  seenListingIds :: "string set"
  stats :: ProcessingStats

definition newDataProcessor :: DataProcessor where
  "newDataProcessor =
     \<lparr> seenListingIds = {},
       stats = \<lparr> totalProcessed = 0, successful = 0, failed = 0, warningsCount = 0,
                 duplicates = 0 \<rparr> \<rparr>"

text \<open>
  \<open>processListing(rawData)\<close>: the result and the processor afterwards. Nothing in the
  \<open>try\<close> block throws on a record of the declared type, so the \<open>catch\<close> branch has no
  counterpart here.
\<close>

definition processListing ::
  "int \<Rightarrow> DataProcessor \<Rightarrow> RawListingData \<Rightarrow> ProcessingResult \<times> DataProcessor" where
  "processListing currentYear dp rawData =
     (let st1 = (stats dp)\<lparr> totalProcessed := totalProcessed (stats dp) + 1 \<rparr>
      in if truthyString (raw_listingId rawData)
            \<and> (case raw_listingId rawData of None \<Rightarrow> False | Some i \<Rightarrow> i \<in> seenListingIds dp)
         then
           (\<lparr> p_success = False, p_data = None, errors = [''Duplicate listing ID detected''],
              warnings = [], originalData = rawData \<rparr>,
            dp\<lparr> stats := st1\<lparr> duplicates := duplicates st1 + 1 \<rparr> \<rparr>)
         else
           (let validationResult = validateData currentYear (cleanRawData currentYear rawData);
                st2 = (if isValid validationResult
                       then st1\<lparr> successful := successful st1 + 1 \<rparr>
                       else st1\<lparr> failed := failed st1 + 1 \<rparr>);
                seen2 = (case v_data validationResult of
                           None \<Rightarrow> seenListingIds dp
                         | Some listing \<Rightarrow>
                             if isValid validationResult \<and> bl_bizBuySellId listing \<noteq> []
                             then insert (bl_bizBuySellId listing) (seenListingIds dp)
                             else seenListingIds dp);
                st3 = (if v_warnings validationResult \<noteq> []
                       then st2\<lparr> warningsCount := warningsCount st2 + 1 \<rparr> else st2)
            in (\<lparr> p_success = isValid validationResult,
                  p_data = (if isValid validationResult then v_data validationResult else None),
                  errors = (if isValid validationResult then [] else v_errors validationResult),
                  warnings = v_warnings validationResult,
                  originalData = rawData \<rparr>,
                \<lparr> seenListingIds = seen2, stats = st3 \<rparr>)))"

text \<open>\<open>resetStats()\<close>.\<close>

definition resetStats :: "DataProcessor \<Rightarrow> DataProcessor" where
  "resetStats dp = newDataProcessor"

text \<open>
  What \<open>processBatch\<close> returns (\<open>successful\<close>, \<open>failed\<close> and \<open>stats\<close> there), with the
  processor afterwards.
\<close>

record BatchResult =
  batch_successful :: "BusinessListing list"
  batch_failed :: "ProcessingResult list"
  batch_stats :: ProcessingStats

fun processLoop ::
  "int \<Rightarrow> DataProcessor \<Rightarrow> RawListingData list \<Rightarrow> BusinessListing list \<Rightarrow> ProcessingResult list
     \<Rightarrow> BusinessListing list \<times> ProcessingResult list \<times> DataProcessor" where
  "processLoop currentYear dp [] succ fl = (succ, fl, dp)"
| "processLoop currentYear dp (rawListing # rest) succ fl =
     (case processListing currentYear dp rawListing of
        (res, dp') \<Rightarrow>
          (case p_data res of
             Some listing \<Rightarrow>
               if p_success res then processLoop currentYear dp' rest (succ @ [listing]) fl
               else processLoop currentYear dp' rest succ (fl @ [res])
           | None \<Rightarrow> processLoop currentYear dp' rest succ (fl @ [res])))"

definition processBatch ::
  "int \<Rightarrow> DataProcessor \<Rightarrow> RawListingData list \<Rightarrow> BatchResult \<times> DataProcessor" where
  "processBatch currentYear dp rawListings =
     (case processLoop currentYear dp rawListings [] [] of
        (succ, fl, dp') \<Rightarrow>
          (\<lparr> batch_successful = succ, batch_failed = fl, batch_stats = stats dp' \<rparr>, dp'))"

text \<open>
  A raw record carries a canonical listing id when it has a non-empty \<open>listingId\<close> that
  \<open>cleanListingId\<close> leaves as it is.
\<close>

definition canonicalId :: "RawListingData \<Rightarrow> bool" where
  "canonicalId raw =
     (case raw_listingId raw of None \<Rightarrow> False | Some i \<Rightarrow> i \<noteq> [] \<and> cleanListingId i = i)"

section \<open>Job queue (database-queue.ts)\<close>

datatype Priority = LOW | NORMAL | HIGH

datatype JobStatus = PENDING | PROCESSING | COMPLETED | FAILED | CANCELLED

text \<open>
  Modelled from the spec: the declaration of the priority enumeration (the database
  schema) is not among the source files; \<open>orderBy priority desc\<close> follows the order of
  that declaration. The spec and the source's comment give it as HIGH > NORMAL > LOW.
\<close>

fun priorityRank :: "Priority \<Rightarrow> nat" where
  "priorityRank LOW = 0"
| "priorityRank NORMAL = 1"
| "priorityRank HIGH = 2"

text \<open>
  A row of the \<open>scrapeJob\<close> table: the columns the queue reads or writes (\<open>id\<close> and
  \<open>error\<close> are \<open>jobId\<close> and \<open>jobError\<close> here). Times are in milliseconds. The filters,
  \<open>maxListings\<close> and \<open>enableWebhooks\<close> are handed on unread and left out, as are the
  notifications the queue sends.
\<close>

record ScrapeJob =
  jobId :: string
  priority :: Priority
  status :: JobStatus
  progress :: int
  createdAt :: int
  startedAt :: "int option"
  completedAt :: "int option"
  updatedAt :: int
  jobError :: "string option"
  listingsFound :: int

text \<open>
  The queue: the table, and the fields of \<open>DatabaseJobQueue\<close>. \<open>currentJobs\<close> is a
  \<open>Set<string>\<close>, here a list without repetition.
\<close>

record JobQueue =
  jobs :: "ScrapeJob list"
  processing :: bool
  maxConcurrentJobs :: int
  currentJobs :: "string list"

definition newJobQueue :: "int \<Rightarrow> JobQueue" where
  "newJobQueue cap = \<lparr> jobs = [], processing = False, maxConcurrentJobs = cap, currentJobs = [] \<rparr>"

definition setAdd :: "string \<Rightarrow> string list \<Rightarrow> string list" where
  "setAdd x xs = (if x \<in> set xs then xs else xs @ [x])"

definition setDelete :: "string \<Rightarrow> string list \<Rightarrow> string list" where
  "setDelete x xs = filter (\<lambda>y. y \<noteq> x) xs"

text \<open>\<open>update({ where: { id }, data })\<close>: the row of that id is rewritten.\<close>

definition updateJob :: "string \<Rightarrow> (ScrapeJob \<Rightarrow> ScrapeJob) \<Rightarrow> ScrapeJob list \<Rightarrow> ScrapeJob list" where
  "updateJob ident f table = map (\<lambda>j. if jobId j = ident then f j else j) table"

definition findUnique :: "string \<Rightarrow> ScrapeJob list \<Rightarrow> ScrapeJob option" where
  "findUnique ident table = find (\<lambda>j. jobId j = ident) table"

text \<open>
  \<open>orderBy: [{ priority: 'desc' }, { createdAt: 'asc' }]\<close>: \<open>sortsBefore a b\<close> when \<open>a\<close>
  comes strictly before \<open>b\<close>. \<open>findFirst\<close> returns a first row of that order; among rows
  equal in both columns the database is free to choose, and the model takes the earliest
  row of the table.
\<close>

definition sortsBefore :: "ScrapeJob \<Rightarrow> ScrapeJob \<Rightarrow> bool" where
  "sortsBefore a b =
     (priorityRank (priority a) > priorityRank (priority b)
      \<or> (priorityRank (priority a) = priorityRank (priority b) \<and> createdAt a < createdAt b))"

fun firstInOrder :: "ScrapeJob list \<Rightarrow> ScrapeJob option" where
  "firstInOrder [] = None"
| "firstInOrder (j # js) =
     (case firstInOrder js of
        None \<Rightarrow> Some j
      | Some k \<Rightarrow> if sortsBefore k j then Some k else Some j)"

definition findFirstPending :: "ScrapeJob list \<Rightarrow> ScrapeJob option" where
  "findFirstPending table = firstInOrder (filter (\<lambda>j. status j = PENDING) table)"

text \<open>
  \<open>processQueue()\<close> at clock \<open>now\<close>: the queue afterwards and the id of the job it
  dispatched, if any. Each method of the queue is taken as one step.
\<close>

definition processQueue :: "JobQueue \<Rightarrow> int \<Rightarrow> JobQueue \<times> string option" where
  "processQueue q now =
     (if processing q \<or> int (length (currentJobs q)) \<ge> maxConcurrentJobs q then (q, None)
      else
        (case findFirstPending (jobs q) of
           None \<Rightarrow> (q\<lparr> processing := False \<rparr>, None)
         | Some nextJob \<Rightarrow>
             (q\<lparr> jobs := updateJob (jobId nextJob)
                          (\<lambda>j. j\<lparr> status := PROCESSING, startedAt := Some now, updatedAt := now \<rparr>)
                          (jobs q),
                 currentJobs := setAdd (jobId nextJob) (currentJobs q),
                 processing := False \<rparr>,
              Some (jobId nextJob))))"

text \<open>
  \<open>addJob(filters, { priority })\<close>: the database creates the row, with the id \<open>newId\<close> it
  generates, and the queue polls at once. An absent priority is NORMAL.
\<close>

definition addJob :: "JobQueue \<Rightarrow> string \<Rightarrow> Priority option \<Rightarrow> int \<Rightarrow> JobQueue \<times> string option" where
  "addJob q newId prio now =
     (let job = \<lparr> jobId = newId,
                  priority = (case prio of None \<Rightarrow> NORMAL | Some p \<Rightarrow> p),
                  status = PENDING, progress = 0, createdAt = now, startedAt = None,
                  completedAt = None, updatedAt = now, jobError = None, listingsFound = 0 \<rparr>
      in processQueue (q\<lparr> jobs := jobs q @ [job] \<rparr>) now)"

text \<open>\<open>updateJobProgress(id, progress)\<close>.\<close>

definition updateJobProgress :: "JobQueue \<Rightarrow> string \<Rightarrow> int \<Rightarrow> int \<Rightarrow> JobQueue" where
  "updateJobProgress q ident pct now =
     q\<lparr> jobs := updateJob ident (\<lambda>j. j\<lparr> progress := pct, updatedAt := now \<rparr>) (jobs q) \<rparr>"

text \<open>
  \<open>completeJob(id, result)\<close>, with \<open>result.success\<close>, \<open>result.listingsFound\<close> and
  \<open>result.error\<close>. The update of a row that does not exist throws, and the \<open>catch\<close>
  leaves the queue as it is.
\<close>

definition completeJob ::
  "JobQueue \<Rightarrow> string \<Rightarrow> bool \<Rightarrow> int \<Rightarrow> string option \<Rightarrow> int \<Rightarrow> JobQueue \<times> string option" where
  "completeJob q ident ok found err now =
     (case findUnique ident (jobs q) of
        None \<Rightarrow> (q, None)
      | Some _ \<Rightarrow>
          processQueue
            (q\<lparr> jobs := updateJob ident
                         (\<lambda>j. j\<lparr> status := (if ok then COMPLETED else FAILED),
                                 progress := (if ok then 100 else 0),
                                 listingsFound := found, jobError := err,
                                 completedAt := Some now, updatedAt := now \<rparr>)
                         (jobs q),
                currentJobs := setDelete ident (currentJobs q) \<rparr>)
            now)"

text \<open>\<open>cancelJob(id)\<close>.\<close>

definition cancelJob :: "JobQueue \<Rightarrow> string \<Rightarrow> int \<Rightarrow> JobQueue \<times> bool" where
  "cancelJob q ident now =
     (case findUnique ident (jobs q) of
        None \<Rightarrow> (q, False)
      | Some job \<Rightarrow>
          if status job = COMPLETED \<or> status job = FAILED then (q, False)
          else
            (q\<lparr> jobs := updateJob ident (\<lambda>j. j\<lparr> status := CANCELLED, updatedAt := now \<rparr>) (jobs q),
                currentJobs := setDelete ident (currentJobs q) \<rparr>,
             True))"

text \<open>\<open>cleanup()\<close> at clock \<open>now\<close>, the reaper of stalled jobs.\<close>

definition stallTimeout :: int where
  "stallTimeout = 10 * 60 * 1000"

definition stalled :: "int \<Rightarrow> ScrapeJob \<Rightarrow> bool" where
  "stalled now j =
     (status j = PROCESSING
      \<and> (case startedAt j of None \<Rightarrow> False | Some t \<Rightarrow> t < now - stallTimeout))"

definition cleanup :: "JobQueue \<Rightarrow> int \<Rightarrow> JobQueue" where
  "cleanup q now =
     q\<lparr> jobs := map (\<lambda>j. if stalled now j
                          then j\<lparr> status := FAILED,
                                 jobError := Some ''Job timed out (stalled for more than 10 minutes)'',
                                 updatedAt := now \<rparr>
                          else j) (jobs q) \<rparr>"

text \<open>The rows in PROCESSING, which the concurrency cap is about.\<close>

definition processingJobs :: "JobQueue \<Rightarrow> ScrapeJob list" where
  "processingJobs q = filter (\<lambda>j. status j = PROCESSING) (jobs q)"

text \<open>
  The queue's set of in-flight ids agrees with the table: the ids of the table are
  distinct (\<open>id\<close> is the primary key) and the ids in \<open>currentJobs\<close> are those of the rows
  in PROCESSING. A new queue over an empty table is so, and \<open>addJob\<close>, \<open>processQueue\<close>,
  \<open>updateJobProgress\<close>, \<open>completeJob\<close> and \<open>cancelJob\<close> keep it so.
\<close>

definition inSync :: "JobQueue \<Rightarrow> bool" where
  "inSync q =
     (distinct (map jobId (jobs q)) \<and> distinct (currentJobs q)
      \<and> set (currentJobs q) = set (map jobId (processingJobs q)))"

text \<open>
  A script of calls on one queue, each with the clock at which it is made: submit a job
  (the id is the one the database gives it), complete a job successfully, poll, reap. It
  returns the queue afterwards and the ids of the jobs dispatched, in order.
\<close>

datatype QueueOp = Submit string Priority | Complete string | Poll | Reap

fun runOps :: "JobQueue \<Rightarrow> (int \<times> QueueOp) list \<Rightarrow> JobQueue \<times> string list" where
  "runOps q [] = (q, [])"
| "runOps q ((now, oper) # rest) =
     (case (case oper of
              Submit ident prio \<Rightarrow> addJob q ident (Some prio) now
            | Complete ident \<Rightarrow> completeJob q ident True 0 None now
            | Poll \<Rightarrow> processQueue q now
            | Reap \<Rightarrow> (cleanup q now, None)) of
        (q', dispatched) \<Rightarrow>
          (case runOps q' rest of
             (q'', later) \<Rightarrow>
               (q'', (case dispatched of None \<Rightarrow> [] | Some ident \<Rightarrow> [ident]) @ later)))"

section \<open>Webhook manager (webhook-manager.ts)\<close>

text \<open>\<open>WebhookEndpoint\<close> (its \<open>id\<close> is \<open>ep_id\<close> here); \<open>createdAt\<close> and \<open>metadata\<close> are left out.\<close>

record WebhookEndpoint =
  ep_id :: string
  url :: string
  events :: "string list"
  secret :: string
  enabled :: bool
  lastDelivery :: "int option"
  lastStatus :: "int option"
  failureCount :: int

datatype DeliveryStatus = DeliveryPending | Delivered | DeliveryFailed | DeliveryRetry

text \<open>
  The error a delivery records: the one thrown for a response that is not 2xx
  (\<open>HTTP <status>: <statusText>\<close>), or the message of the error \<open>fetch\<close> threw.
\<close>

datatype DeliveryError = HttpError int string | FetchError string

text \<open>\<open>WebhookDelivery\<close>, its fields with the prefix \<open>d_\<close>. The payload is of any type.\<close>

record 'p WebhookDelivery =
  d_id :: string
  d_endpointId :: string
  d_event :: string
  d_payload :: 'p
  d_signature :: string
  d_status :: DeliveryStatus
  d_attempts :: int
  d_lastAttempt :: "int option"
  d_nextRetry :: "int option"
  d_responseStatus :: "int option"
  d_error :: "DeliveryError option"
  d_createdAt :: int

definition MAX_RETRY_ATTEMPTS :: int where
  "MAX_RETRY_ATTEMPTS = 5"

definition RETRY_DELAYS :: "int list" where
  "RETRY_DELAYS = [5000, 30000, 120000, 600000, 3600000]"

text \<open>
  \<open>generateSignature(payload, secret)\<close>. \<open>hmacSha256Hex secret payload\<close> stands for
  \<open>createHmac('sha256', secret).update(payload).digest('hex')\<close> of the \<open>crypto\<close> library.
\<close>

definition generateSignature :: "(string \<Rightarrow> string \<Rightarrow> string) \<Rightarrow> string \<Rightarrow> string \<Rightarrow> string" where
  "generateSignature hmacSha256Hex payload sec = ''sha256='' @ hmacSha256Hex sec payload"

definition validateSignature ::
  "(string \<Rightarrow> string \<Rightarrow> string) \<Rightarrow> string \<Rightarrow> string \<Rightarrow> string \<Rightarrow> bool" where
  "validateSignature hmacSha256Hex payload signature sec =
     (let expectedSignature = generateSignature hmacSha256Hex payload sec
      in signature = expectedSignature)"

text \<open>
  The request \<open>sendWebhook\<close> hands to \<open>fetch\<close>. \<open>stringify\<close> stands for \<open>JSON.stringify\<close>.
  A header is text or a number of milliseconds written in decimal.
\<close>

datatype HeaderValue = Text string | Millis int

record HttpRequest =
  req_url :: string
  req_method :: string
  req_headers :: "(string \<times> HeaderValue) list"
  req_body :: string

definition sendWebhook ::
  "(string \<Rightarrow> string \<Rightarrow> string) \<Rightarrow> ('p \<Rightarrow> string) \<Rightarrow> WebhookEndpoint \<Rightarrow> 'p WebhookDelivery
     \<Rightarrow> HttpRequest" where
  "sendWebhook hmacSha256Hex stringify endpoint delivery =
     (let payload = stringify (d_payload delivery);
          signature = generateSignature hmacSha256Hex payload (secret endpoint)
      in \<lparr> req_url = url endpoint,
           req_method = ''POST'',
           req_headers =
             [(''Content-Type'', Text ''application/json''),
              (''User-Agent'', Text ''BizBuySell-Scraper-Webhook/1.0''),
              (''X-Webhook-Signature-256'', Text signature),
              (''X-Webhook-Delivery'', Text (d_id delivery)),
              (''X-Webhook-Event'', Text (d_event delivery)),
              (''X-Webhook-Timestamp'', Millis (d_createdAt delivery))],
           req_body = payload \<rparr>)"

text \<open>
  What \<open>fetch\<close> does with the request: a response with its status and status text, or
  an error thrown (a network failure, the timeout).
\<close>

datatype FetchOutcome = Response int string | Thrown string

definition responseOk :: "int \<Rightarrow> bool" where
  "responseOk st = (200 \<le> st \<and> st \<le> 299)"

text \<open>The manager's state: the endpoints by id and the retry queue.\<close>

record 'p WebhookManager =
  endpoints :: "string \<rightharpoonup> WebhookEndpoint"
  retryQueue :: "'p WebhookDelivery list"

text \<open>
  The \<open>catch\<close> block of \<open>attemptDelivery\<close>: a failed attempt, with the error recorded.
  \<open>RETRY_DELAYS[attempts - 1]\<close> is read within the array for an attempt count of 1 to 4;
  below 1 (no delivery is created so) the entry is \<open>undefined\<close> and the date invalid,
  \<open>None\<close> here.
\<close>

definition deliveryFailure ::
  "'p WebhookManager \<Rightarrow> WebhookEndpoint \<Rightarrow> 'p WebhookDelivery \<Rightarrow> DeliveryError \<Rightarrow> int
     \<Rightarrow> 'p WebhookManager \<times> 'p WebhookDelivery" where
  "deliveryFailure m endpoint delivery err now =
     (let d1 = delivery\<lparr> d_attempts := d_attempts delivery + 1, d_lastAttempt := Some now,
                           d_error := Some err, d_responseStatus := None \<rparr>;
          e1 = endpoint\<lparr> failureCount := failureCount endpoint + 1 \<rparr>
      in if d_attempts d1 < MAX_RETRY_ATTEMPTS then
           (let d2 = d1\<lparr> d_status := DeliveryRetry,
                          d_nextRetry :=
                            (if 1 \<le> d_attempts d1
                             then Some (now + RETRY_DELAYS ! nat (d_attempts d1 - 1))
                             else None) \<rparr>
            in (m\<lparr> endpoints := (endpoints m)(d_endpointId delivery \<mapsto> e1),
                   retryQueue := retryQueue m @ [d2] \<rparr>, d2))
         else
           (let d2 = d1\<lparr> d_status := DeliveryFailed \<rparr>;
                e2 = (if failureCount e1 > 10 then e1\<lparr> enabled := False \<rparr> else e1)
            in (m\<lparr> endpoints := (endpoints m)(d_endpointId delivery \<mapsto> e2) \<rparr>, d2)))"

text \<open>
  \<open>attemptDelivery(delivery)\<close> at clock \<open>now\<close>: the manager and the delivery afterwards.
  \<open>fetch\<close> is the network: what it answers to the request \<open>sendWebhook\<close> hands it.
\<close>

definition attemptDelivery ::
  "(string \<Rightarrow> string \<Rightarrow> string) \<Rightarrow> ('p \<Rightarrow> string) \<Rightarrow> (HttpRequest \<Rightarrow> FetchOutcome)
     \<Rightarrow> 'p WebhookManager \<Rightarrow> 'p WebhookDelivery \<Rightarrow> int
     \<Rightarrow> 'p WebhookManager \<times> 'p WebhookDelivery" where
  "attemptDelivery hmacSha256Hex stringify fetch m delivery now =
     (case endpoints m (d_endpointId delivery) of
        None \<Rightarrow> (m, delivery)
      | Some endpoint \<Rightarrow>
          if \<not> enabled endpoint then (m, delivery)
          else
            (case fetch (sendWebhook hmacSha256Hex stringify endpoint delivery) of
               Response st statusText \<Rightarrow>
                 if responseOk st then
                   (m\<lparr> endpoints := (endpoints m)(d_endpointId delivery \<mapsto>
                          endpoint\<lparr> lastDelivery := Some now, lastStatus := Some st,
                                    failureCount := 0 \<rparr>) \<rparr>,
                    delivery\<lparr> d_status := Delivered, d_responseStatus := Some st,
                              d_lastAttempt := Some now \<rparr>)
                 else deliveryFailure m endpoint delivery (HttpError st statusText) now
             | Thrown msg \<Rightarrow> deliveryFailure m endpoint delivery (FetchError msg) now))"

text \<open>Whether the network's answer makes the attempt fail: anything but a 2xx response.\<close>

definition failedFetch :: "FetchOutcome \<Rightarrow> bool" where
  "failedFetch fetched = (case fetched of Response st statusText \<Rightarrow> \<not> responseOk st | Thrown msg \<Rightarrow> True)"

section \<open>Inputs of the scenarios\<close>

text \<open>
  The message \<open>checkForPageErrors\<close> throws when the page body shows a rate limit, here for
  the body text "Rate limit exceeded".
\<close>

definition rateLimitMessage :: string where
  "rateLimitMessage = ''Rate limiting detected: Rate limit exceeded...''"

definition captchaMessage :: string where
  "captchaMessage = ''Captcha detected on page''"

definition timeoutMessage :: string where
  "timeoutMessage = ''Operation timed out after 30000ms''"

text \<open>Operations that throw the same error at every invocation.\<close>

definition alwaysThrows :: "string \<Rightarrow> nat \<Rightarrow> string + unit" where
  "alwaysThrows msg n = Inl msg"

text \<open>The default configuration with a backoff multiplier of one.\<close>

definition flatConfig :: "real RetryConfig" where
  "flatConfig = defaultConfig\<lparr> backoffMultiplier := 1 \<rparr>"

text \<open>The default configuration but for a negative base delay.\<close>

definition negativeConfig :: "real RetryConfig" where
  "negativeConfig = defaultConfig\<lparr> baseDelay := - 1000 \<rparr>"

text \<open>
  Three jobs of priorities LOW, HIGH, NORMAL submitted in that order to an idle queue of
  cap 1, each job completing before the next script step that completes one.
\<close>

definition idleSubmission :: "(int \<times> QueueOp) list" where
  "idleSubmission =
     [(1, Submit ''low'' LOW), (2, Submit ''high'' HIGH), (3, Submit ''normal'' NORMAL),
      (10, Complete ''low''), (20, Complete ''high''), (30, Complete ''normal'')]"

text \<open>The same three submissions while an earlier job holds the only slot.\<close>

definition busySubmission :: "(int \<times> QueueOp) list" where
  "busySubmission =
     [(0, Submit ''first'' NORMAL),
      (1, Submit ''low'' LOW), (2, Submit ''high'' HIGH), (3, Submit ''normal'' NORMAL),
      (10, Complete ''first''), (20, Complete ''high''), (30, Complete ''normal''),
      (40, Complete ''low'')]"

text \<open>
  A job that starts at 0 and never reports back, a second job waiting behind it, the
  reaper after more than ten minutes, then a poll.
\<close>

definition stalledScript :: "(int \<times> QueueOp) list" where
  "stalledScript =
     [(0, Submit ''stuck'' NORMAL), (1, Submit ''waiting'' NORMAL), (600001, Reap), (600002, Poll)]"

text \<open>
  A queue of cap 1 started over a table that holds three PENDING jobs, of priorities LOW,
  HIGH and NORMAL in the order of their creation.
\<close>

definition pendingQueue :: JobQueue where
  "pendingQueue =
     \<lparr> jobs =
         [\<lparr> jobId = ''low'', priority = LOW, status = PENDING, progress = 0, createdAt = 1,
            startedAt = None, completedAt = None, updatedAt = 1, jobError = None,
            listingsFound = 0 \<rparr>,
          \<lparr> jobId = ''high'', priority = HIGH, status = PENDING, progress = 0, createdAt = 2,
            startedAt = None, completedAt = None, updatedAt = 2, jobError = None,
            listingsFound = 0 \<rparr>,
          \<lparr> jobId = ''normal'', priority = NORMAL, status = PENDING, progress = 0, createdAt = 3,
            startedAt = None, completedAt = None, updatedAt = 3, jobError = None,
            listingsFound = 0 \<rparr>],
       processing = False, maxConcurrentJobs = 1, currentJobs = [] \<rparr>"

text \<open>The same queue while a poll is in progress.\<close>

definition pollInProgress :: JobQueue where
  "pollInProgress = pendingQueue\<lparr> processing := True \<rparr>"

text \<open>A call of the breaker at clock \<open>t\<close> whose operation throws at once.\<close>

definition failingCall :: "int \<Rightarrow> int \<times> (string + unit) \<times> int" where
  "failingCall t = (t, Inl ''connection refused'', t)"

text \<open>
  A raw record whose listing id is not in the form \<open>cleanListingId\<close> gives it, and the
  same listing with no id but the one in its URL.
\<close>

definition cafe :: RawListingData where
  "cafe =
     \<lparr> raw_title = Some ''Corner Cafe'', raw_askingPrice = Some ''$250,000'',
       raw_revenue = Some ''$400,000'', raw_cashFlow = None,
       raw_location = Some ''Austin, TX'', raw_industry = Some ''Restaurant'',
       raw_description = Some ''A cafe on a corner.'', raw_established = Some ''2011'',
       raw_employees = Some ''6'', raw_listingId = Some ''bbs-42'', raw_url = None \<rparr>"

definition cafeByUrl :: RawListingData where
  "cafeByUrl =
     cafe\<lparr> raw_listingId := None,
           raw_url := Some ''https://www.bizbuysell.com/listing/42'' \<rparr>"

definition cafeCanonical :: RawListingData where
  "cafeCanonical = cafe\<lparr> raw_listingId := Some ''BBS-42'' \<rparr>"

text \<open>
  An enabled endpoint whose failure counter stands at the ceiling, a delivery to it that
  has not been attempted yet, and a receiver that answers 500 to everything. The HMAC and
  the serialiser are stand-ins.
\<close>

definition ceilingEndpoint :: WebhookEndpoint where
  "ceilingEndpoint =
     \<lparr> ep_id = ''ep_1'', url = ''https://example.com/hook'', events = [''job.completed''],
       secret = ''s3cret'', enabled = True, lastDelivery = None, lastStatus = None,
       failureCount = 10 \<rparr>"

definition freshDelivery :: "string WebhookDelivery" where
  "freshDelivery =
     \<lparr> d_id = ''del_1'', d_endpointId = ''ep_1'', d_event = ''job.completed'',
       d_payload = ''{}'', d_signature = ''sha256=s3cret{}'', d_status = DeliveryPending,
       d_attempts = 0, d_lastAttempt = None, d_nextRetry = None, d_responseStatus = None,
       d_error = None, d_createdAt = 0 \<rparr>"

definition ceilingManager :: "string WebhookManager" where
  "ceilingManager = \<lparr> endpoints = [''ep_1'' \<mapsto> ceilingEndpoint], retryQueue = [] \<rparr>"

definition answers500 :: "HttpRequest \<Rightarrow> FetchOutcome" where
  "answers500 request = Response 500 ''Internal Server Error''"

definition standInHmac :: "string \<Rightarrow> string \<Rightarrow> string" where
  "standInHmac sec payload = sec @ payload"

section \<open>Properties of the retry handler\<close>

declare retryLoop.simps [simp del]

text \<open>The retry policy by error class, when no configured pattern matches the message.\<close>

lemma isRetryableError_by_type:
  "\<not> list_ex (\<lambda>pattern. str_includes msg pattern) (retryableErrors config) \<Longrightarrow>
   isRetryableError msg config errorType
     = (errorType = NETWORK \<or> errorType = TIMEOUT \<or> errorType = RATE_LIMITED \<or> errorType = UNKNOWN)"
  by (cases errorType) (simp_all add: isRetryableError_def)

lemma isRetryableError_configured:
  "list_ex (\<lambda>pattern. str_includes msg pattern) (retryableErrors config) \<Longrightarrow>
   isRetryableError msg config errorType"
  by (simp add: isRetryableError_def)

text \<open>
  No message that contains "rate limit" (in any case) is classified RATE_LIMITED: the
  branches before that one take it.
\<close>

lemma rate_limit_never_rate_limited:
  "str_includes (toLowerCase msg) ''rate limit'' \<Longrightarrow> classifyError msg \<noteq> RATE_LIMITED"
  by (simp add: classifyError_def Let_def)

text \<open>
  C2, at the failing input. The claim has an error that indicates rate limiting, such as
  a message containing "rate limit", classified RATE_LIMITED and retried. The message the
  handler's own page check throws for a rate-limited page is classified BLOCKED, because
  the BLOCKED branch tests for "rate limit" before the RATE_LIMITED branch does; it is
  not retryable under the default configuration, and \<open>executeWithRetry\<close> invokes the
  operation once and sleeps on no retry delay.
\<close>

theorem rate_limit_message_classified_blocked:
  "classifyError rateLimitMessage = BLOCKED
   \<and> isRetryableError rateLimitMessage defaultConfig (classifyError rateLimitMessage) = False
   \<and> invocations (executeWithRetry exactArith defaultConfig (alwaysThrows rateLimitMessage) (\<lambda>n. 0)) = 1
   \<and> sleeps (executeWithRetry exactArith defaultConfig (alwaysThrows rateLimitMessage) (\<lambda>n. 0)) = []"
  by code_simp

text \<open>Facts about the loop of \<open>executeWithRetry\<close>, by induction along its recursion.\<close>

lemma retryLoop_failed_attempts:
  "\<not> success (result (retryLoop ar config operation rnd attempt lastError calls slept)) \<Longrightarrow>
   attempts (result (retryLoop ar config operation rnd attempt lastError calls slept))
     = maxRetries config + 1"
proof (induction ar config operation rnd attempt lastError calls slept rule: retryLoop.induct)
  case (1 ar config operation rnd attempt lastError calls slept)
  note unfold = retryLoop.simps [of ar config operation rnd attempt lastError calls slept]
  show ?case
  proof (cases "attempt \<le> maxRetries config + 1")
    case False
    then show ?thesis by (simp add: unfold)
  next
    case True
    show ?thesis
    proof (cases "operation (Suc calls)")
      case (Inr d)
      with True "1.prems" show ?thesis by (simp add: unfold)
    next
      case (Inl e)
      show ?thesis
      proof (cases "attempt > maxRetries config \<or> \<not> isRetryableError e config (classifyError e)")
        case True
        with Inl \<open>attempt \<le> maxRetries config + 1\<close> show ?thesis
          by (auto simp add: unfold)
      next
        case False
        with Inl True "1.IH" [of e] "1.prems" show ?thesis
          by (simp add: unfold)
      qed
    qed
  qed
qed

lemma retryLoop_sleeps:
  "attempt = int calls + 1 \<Longrightarrow> length slept = calls \<Longrightarrow>
   (\<And>k. k < length slept \<Longrightarrow> slept ! k = calculateDelay ar k config (rnd (Suc k))) \<Longrightarrow>
   k < length (sleeps (retryLoop ar config operation rnd attempt lastError calls slept)) \<Longrightarrow>
   sleeps (retryLoop ar config operation rnd attempt lastError calls slept) ! k
     = calculateDelay ar k config (rnd (Suc k))"
proof (induction ar config operation rnd attempt lastError calls slept rule: retryLoop.induct)
  case (1 ar config operation rnd attempt lastError calls slept)
  note unfold = retryLoop.simps [of ar config operation rnd attempt lastError calls slept]
  show ?case
  proof (cases "attempt \<le> maxRetries config + 1")
    case False
    then have eq: "retryLoop ar config operation rnd attempt lastError calls slept =
        \<lparr> result = \<lparr> success = False, data = None, error = lastError,
                     attempts = maxRetries config + 1 \<rparr>,
          invocations = calls, sleeps = slept \<rparr>"
      by (simp add: unfold)
    show ?thesis using "1.prems" unfolding eq by simp
  next
    case True
    show ?thesis
    proof (cases "operation (Suc calls)")
      case (Inr d)
      with True have eq: "retryLoop ar config operation rnd attempt lastError calls slept =
          \<lparr> result = \<lparr> success = True, data = Some d, error = None, attempts = attempt \<rparr>,
            invocations = Suc calls, sleeps = slept \<rparr>"
        by (simp add: unfold)
      show ?thesis using "1.prems" unfolding eq by simp
    next
      case (Inl e)
      show ?thesis
      proof (cases "attempt > maxRetries config \<or> \<not> isRetryableError e config (classifyError e)")
        case True
        with Inl \<open>attempt \<le> maxRetries config + 1\<close>
        have eq: "retryLoop ar config operation rnd attempt lastError calls slept =
            \<lparr> result = \<lparr> success = False, data = None, error = Some e,
                         attempts = maxRetries config + 1 \<rparr>,
              invocations = Suc calls, sleeps = slept \<rparr>"
          by (auto simp add: unfold)
        show ?thesis using "1.prems" Inl unfolding eq by simp
      next
        case False
        let ?slept = "slept @ [calculateDelay ar (nat (attempt - 1)) config (rnd (Suc calls))]"
        have step: "retryLoop ar config operation rnd attempt lastError calls slept
            = retryLoop ar config operation rnd (attempt + 1) (Some e) (Suc calls) ?slept"
          using Inl True False by (simp add: unfold)
        have a: "attempt + 1 = int (Suc calls) + 1" using "1.prems"(1) by simp
        have b: "length ?slept = Suc calls" using "1.prems"(2) by simp
        have c: "\<And>j. j < length ?slept \<Longrightarrow> ?slept ! j = calculateDelay ar j config (rnd (Suc j))"
        proof -
          fix j assume "j < length ?slept"
          then consider "j < length slept" | "j = length slept" by fastforce
          then show "?slept ! j = calculateDelay ar j config (rnd (Suc j))"
          proof cases
            case 1
            then show ?thesis using "1.prems"(3) by (simp add: nth_append)
          next
            case 2
            then show ?thesis using "1.prems"(1,2) by (simp add: nth_append)
          qed
        qed
        have d: "k < length (sleeps (retryLoop ar config operation rnd (attempt + 1) (Some e)
                    (Suc calls) ?slept))"
          using "1.prems"(4) step by simp
        show ?thesis
          using "1.IH" [OF True Inl _ _ a b c d] False step by simp
      qed
    qed
  qed
qed

lemma retryLoop_bounds:
  "attempt = int calls + 1 \<Longrightarrow> length slept = calls \<Longrightarrow>
   int (length (sleeps (retryLoop ar config operation rnd attempt lastError calls slept)))
      \<le> max (int calls) (maxRetries config) \<and>
   invocations (retryLoop ar config operation rnd attempt lastError calls slept)
      \<le> Suc (length (sleeps (retryLoop ar config operation rnd attempt lastError calls slept)))"
proof (induction ar config operation rnd attempt lastError calls slept rule: retryLoop.induct)
  case (1 ar config operation rnd attempt lastError calls slept)
  note unfold = retryLoop.simps [of ar config operation rnd attempt lastError calls slept]
  show ?case
  proof (cases "attempt \<le> maxRetries config + 1")
    case False
    then have eq: "retryLoop ar config operation rnd attempt lastError calls slept =
        \<lparr> result = \<lparr> success = False, data = None, error = lastError,
                     attempts = maxRetries config + 1 \<rparr>,
          invocations = calls, sleeps = slept \<rparr>"
      by (simp add: unfold)
    show ?thesis using "1.prems" unfolding eq by simp
  next
    case True
    show ?thesis
    proof (cases "operation (Suc calls)")
      case (Inr d)
      with True have eq: "retryLoop ar config operation rnd attempt lastError calls slept =
          \<lparr> result = \<lparr> success = True, data = Some d, error = None, attempts = attempt \<rparr>,
            invocations = Suc calls, sleeps = slept \<rparr>"
        by (simp add: unfold)
      show ?thesis using "1.prems" unfolding eq by simp
    next
      case (Inl e)
      show ?thesis
      proof (cases "attempt > maxRetries config \<or> \<not> isRetryableError e config (classifyError e)")
        case True
        with Inl \<open>attempt \<le> maxRetries config + 1\<close>
        have eq: "retryLoop ar config operation rnd attempt lastError calls slept =
            \<lparr> result = \<lparr> success = False, data = None, error = Some e,
                         attempts = maxRetries config + 1 \<rparr>,
              invocations = Suc calls, sleeps = slept \<rparr>"
          by (auto simp add: unfold)
        show ?thesis using "1.prems" Inl unfolding eq by simp
      next
        case False
        let ?slept = "slept @ [calculateDelay ar (nat (attempt - 1)) config (rnd (Suc calls))]"
        have step: "retryLoop ar config operation rnd attempt lastError calls slept
            = retryLoop ar config operation rnd (attempt + 1) (Some e) (Suc calls) ?slept"
          using Inl True False by (simp add: unfold)
        have a: "attempt + 1 = int (Suc calls) + 1" using "1.prems"(1) by simp
        have b: "length ?slept = Suc calls" using "1.prems"(2) by simp
        have le: "int (Suc calls) \<le> maxRetries config" using False "1.prems"(1) by simp
        show ?thesis
          using "1.IH" [OF True Inl _ _ a b] False step le by simp
      qed
    qed
  qed
qed

lemma retryLoop_last_error:
  "(0 < calls \<Longrightarrow> \<exists>e. operation calls = Inl e \<and> lastError = Some e) \<Longrightarrow>
   \<not> success (result (retryLoop ar config operation rnd attempt lastError calls slept)) \<Longrightarrow>
   0 < invocations (retryLoop ar config operation rnd attempt lastError calls slept) \<Longrightarrow>
   \<exists>e. operation (invocations (retryLoop ar config operation rnd attempt lastError calls slept)) = Inl e
     \<and> error (result (retryLoop ar config operation rnd attempt lastError calls slept)) = Some e"
proof (induction ar config operation rnd attempt lastError calls slept rule: retryLoop.induct)
  case (1 ar config operation rnd attempt lastError calls slept)
  note unfold = retryLoop.simps [of ar config operation rnd attempt lastError calls slept]
  show ?case
  proof (cases "attempt \<le> maxRetries config + 1")
    case False
    then have eq: "retryLoop ar config operation rnd attempt lastError calls slept =
        \<lparr> result = \<lparr> success = False, data = None, error = lastError,
                     attempts = maxRetries config + 1 \<rparr>,
          invocations = calls, sleeps = slept \<rparr>"
      by (simp add: unfold)
    show ?thesis using "1.prems" unfolding eq by simp
  next
    case True
    show ?thesis
    proof (cases "operation (Suc calls)")
      case (Inr d)
      with True have eq: "retryLoop ar config operation rnd attempt lastError calls slept =
          \<lparr> result = \<lparr> success = True, data = Some d, error = None, attempts = attempt \<rparr>,
            invocations = Suc calls, sleeps = slept \<rparr>"
        by (simp add: unfold)
      show ?thesis using "1.prems" unfolding eq by simp
    next
      case (Inl e)
      show ?thesis
      proof (cases "attempt > maxRetries config \<or> \<not> isRetryableError e config (classifyError e)")
        case True
        with Inl \<open>attempt \<le> maxRetries config + 1\<close>
        have eq: "retryLoop ar config operation rnd attempt lastError calls slept =
            \<lparr> result = \<lparr> success = False, data = None, error = Some e,
                         attempts = maxRetries config + 1 \<rparr>,
              invocations = Suc calls, sleeps = slept \<rparr>"
          by (auto simp add: unfold)
        show ?thesis using "1.prems" Inl unfolding eq by simp
      next
        case False
        let ?slept = "slept @ [calculateDelay ar (nat (attempt - 1)) config (rnd (Suc calls))]"
        have step: "retryLoop ar config operation rnd attempt lastError calls slept
            = retryLoop ar config operation rnd (attempt + 1) (Some e) (Suc calls) ?slept"
          using Inl True False by (simp add: unfold)
        have a: "0 < Suc calls \<Longrightarrow> \<exists>e'. operation (Suc calls) = Inl e' \<and> Some e = Some e'"
          using Inl by simp
        show ?thesis
          using "1.IH" [OF True Inl _ _ a] False step "1.prems"(2,3) by simp
      qed
    qed
  qed
qed

text \<open>
  The jitter lies between zero and a tenth of the delay before jitter, both as the
  runtime computes them, when the three products involved are rounded exact products,
  the rounding is monotone and keeps zero and the literal \<open>0.1\<close>, the random number lies
  in \<open>[0, 1]\<close> and the delay before jitter is not negative.
\<close>

lemma jitter_bounds:
  fixes val :: "'d \<Rightarrow> real" and fl :: "real \<Rightarrow> real"
  assumes mono: "mono fl" and zero: "fl 0 = 0"
    and tenth: "fl (val (d_tenth ar)) = val (d_tenth ar)" "0 \<le> val (d_tenth ar)"
    and p1: "roundedProduct ar val fl r (d_tenth ar)"
    and p2: "roundedProduct ar val fl (d_mul ar r (d_tenth ar)) (exponentialDelay ar k config)"
    and p3: "roundedProduct ar val fl (d_tenth ar) (exponentialDelay ar k config)"
    and r: "0 \<le> val r" "val r \<le> 1"
    and e: "0 \<le> val (exponentialDelay ar k config)"
  shows "0 \<le> val (jitter ar k config r)
       \<and> val (jitter ar k config r) \<le> val (d_mul ar (d_tenth ar) (exponentialDelay ar k config))"
proof -
  let ?t = "val (d_tenth ar)" and ?e = "val (exponentialDelay ar k config)"
  let ?rt = "val (d_mul ar r (d_tenth ar))"
  have rt: "?rt = fl (val r * ?t)" using p1 by (simp add: roundedProduct_def)
  have "0 \<le> val r * ?t" using r(1) tenth(2) by simp
  then have "fl 0 \<le> fl (val r * ?t)" by (rule monoD [OF mono])
  then have rt0: "0 \<le> ?rt" using rt zero by simp
  have "val r * ?t \<le> 1 * ?t" using r(2) tenth(2) by (rule mult_right_mono)
  then have "fl (val r * ?t) \<le> fl (1 * ?t)" by (rule monoD [OF mono])
  then have "fl (val r * ?t) \<le> fl ?t" by simp
  then have rt1: "?rt \<le> ?t" using rt tenth(1) by simp
  have j: "val (jitter ar k config r) = fl (?rt * ?e)"
    using p2 by (simp add: roundedProduct_def jitter_def)
  have "0 \<le> ?rt * ?e" using rt0 e by simp
  then have "fl 0 \<le> fl (?rt * ?e)" by (rule monoD [OF mono])
  then have lower: "0 \<le> val (jitter ar k config r)" using j zero by simp
  have "?rt * ?e \<le> ?t * ?e" using rt1 e by (rule mult_right_mono)
  then have "fl (?rt * ?e) \<le> fl (?t * ?e)" by (rule monoD [OF mono])
  then have upper: "val (jitter ar k config r)
      \<le> val (d_mul ar (d_tenth ar) (exponentialDelay ar k config))"
    using j p3 by (simp add: roundedProduct_def)
  from lower upper show ?thesis by simp
qed

text \<open>
  The delay before jitter grows strictly from one retry to the next when the base delay
  is positive, the multiplier is above one, and the two powers and the two products are
  computed without rounding.
\<close>

lemma exponentialDelay_increasing:
  fixes val :: "'d \<Rightarrow> real"
  assumes pk: "exactPower ar val (backoffMultiplier config) k"
    and pk': "exactPower ar val (backoffMultiplier config) (Suc k)"
    and mk: "exactProduct ar val (baseDelay config) (d_pow ar (backoffMultiplier config) k)"
    and mk': "exactProduct ar val (baseDelay config) (d_pow ar (backoffMultiplier config) (Suc k))"
    and base: "0 < val (baseDelay config)" and mult: "1 < val (backoffMultiplier config)"
  shows "val (exponentialDelay ar k config) < val (exponentialDelay ar (Suc k) config)"
proof -
  let ?b = "val (baseDelay config)" and ?m = "val (backoffMultiplier config)"
  have ek: "val (exponentialDelay ar k config) = ?b * ?m ^ k"
    using pk mk by (simp add: exponentialDelay_def exactProduct_def exactPower_def)
  have ek': "val (exponentialDelay ar (Suc k) config) = ?b * (?m ^ k * ?m)"
    using pk' mk' by (simp add: exponentialDelay_def exactProduct_def exactPower_def mult.commute)
  have pos: "0 < ?m ^ k" using mult by simp
  have "?m ^ k * 1 < ?m ^ k * ?m" using mult pos by (rule mult_strict_left_mono)
  then have "?b * (?m ^ k * 1) < ?b * (?m ^ k * ?m)" using base by (rule mult_strict_left_mono)
  then show ?thesis using ek ek' by simp
qed

text \<open>
  C9, the claim as stated fails. It bounds the jitter and has the delays before jitter
  strictly increasing for every retry configuration. With a backoff multiplier of one (and
  the default base delay of 1000 ms, far below the cap of 30000 ms) the first and the
  second delay before jitter are equal; with a negative base delay the jitter is
  negative. The delays here are whole numbers, which doubles compute as the reals do;
  the jitter of a base delay of -1000 at a random number of 1/2 is -50 in doubles too.
\<close>

theorem backoff_not_increasing_jitter_negative:
  "\<not> exponentialDelay exactArith 0 flatConfig < exponentialDelay exactArith 1 flatConfig
   \<and> jitter exactArith 0 negativeConfig (1 / 2) = - 50
   \<and> \<not> 0 \<le> jitter exactArith 0 negativeConfig (1 / 2)"
  by (simp add: exponentialDelay_def jitter_def exactArith_def flatConfig_def negativeConfig_def
      defaultConfig_def)

text \<open>
  C9, amended. For every retry configuration, every retry index \<open>k\<close> and whatever the
  arithmetic of the runtime is: the delay computed for index \<open>k\<close> is
  \<open>Math.min(exponentialDelay + jitter, maxDelay)\<close> with \<open>exponentialDelay\<close> the product of
  \<open>baseDelay\<close> and \<open>Math.pow(backoffMultiplier, k)\<close> and \<open>jitter\<close> the product of the random
  number, \<open>0.1\<close> and \<open>exponentialDelay\<close>, all in that arithmetic; the \<open>k\<close>-th sleep of
  \<open>executeWithRetry\<close> (counting from 0, the sleep before the \<open>(k+1)\<close>-th retry) is that
  delay for index \<open>k\<close>; the run sleeps at most \<open>maxRetries\<close> times and invokes the
  operation at most once more than it sleeps; and a run that fails after invoking the
  operation reports the error of its last invocation. The jitter lies between zero and
  the runtime's \<open>0.1 * exponentialDelay\<close> when \<open>exponentialDelay\<close> is not negative, the
  random number lies in \<open>[0, 1]\<close> and the products are rounded monotonically from the exact
  ones. The delay before jitter is strictly greater at \<open>k + 1\<close> than at \<open>k\<close> when the base
  delay is positive, the multiplier is above one and the two delays are computed without
  rounding.
\<close>

theorem retry_backoff:
  fixes val :: "'d \<Rightarrow> real" and fl :: "real \<Rightarrow> real" and ar :: "'d Arith"
    and operation :: "nat \<Rightarrow> string + 'a"
  shows "calculateDelay ar k config r
        = d_min ar (d_add ar (exponentialDelay ar k config) (jitter ar k config r))
            (maxDelay config)
    \<and> exponentialDelay ar k config
        = d_mul ar (baseDelay config) (d_pow ar (backoffMultiplier config) k)
    \<and> jitter ar k config r
        = d_mul ar (d_mul ar r (d_tenth ar)) (exponentialDelay ar k config)
    \<and> (mono fl \<and> fl 0 = 0 \<and> fl (val (d_tenth ar)) = val (d_tenth ar) \<and> 0 \<le> val (d_tenth ar)
         \<and> roundedProduct ar val fl r (d_tenth ar)
         \<and> roundedProduct ar val fl (d_mul ar r (d_tenth ar)) (exponentialDelay ar k config)
         \<and> roundedProduct ar val fl (d_tenth ar) (exponentialDelay ar k config)
         \<and> 0 \<le> val r \<and> val r \<le> 1 \<and> 0 \<le> val (exponentialDelay ar k config) \<longrightarrow>
         0 \<le> val (jitter ar k config r)
         \<and> val (jitter ar k config r)
             \<le> val (d_mul ar (d_tenth ar) (exponentialDelay ar k config)))
    \<and> (exactPower ar val (backoffMultiplier config) k
         \<and> exactPower ar val (backoffMultiplier config) (Suc k)
         \<and> exactProduct ar val (baseDelay config) (d_pow ar (backoffMultiplier config) k)
         \<and> exactProduct ar val (baseDelay config) (d_pow ar (backoffMultiplier config) (Suc k))
         \<and> 0 < val (baseDelay config) \<and> 1 < val (backoffMultiplier config) \<longrightarrow>
         val (exponentialDelay ar k config) < val (exponentialDelay ar (Suc k) config))
    \<and> (k < length (sleeps (executeWithRetry ar config operation rnd)) \<longrightarrow>
         sleeps (executeWithRetry ar config operation rnd) ! k
           = calculateDelay ar k config (rnd (Suc k)))
    \<and> int (length (sleeps (executeWithRetry ar config operation rnd))) \<le> max 0 (maxRetries config)
    \<and> invocations (executeWithRetry ar config operation rnd)
         \<le> Suc (length (sleeps (executeWithRetry ar config operation rnd)))
    \<and> (\<not> success (result (executeWithRetry ar config operation rnd))
         \<and> 0 < invocations (executeWithRetry ar config operation rnd) \<longrightarrow>
         (\<exists>e. operation (invocations (executeWithRetry ar config operation rnd)) = Inl e
            \<and> error (result (executeWithRetry ar config operation rnd)) = Some e))"
proof -
  have form: "calculateDelay ar k config r
        = d_min ar (d_add ar (exponentialDelay ar k config) (jitter ar k config r))
            (maxDelay config)
    \<and> exponentialDelay ar k config
        = d_mul ar (baseDelay config) (d_pow ar (backoffMultiplier config) k)
    \<and> jitter ar k config r
        = d_mul ar (d_mul ar r (d_tenth ar)) (exponentialDelay ar k config)"
    by (simp add: calculateDelay_def exponentialDelay_def jitter_def Let_def)
  have jit: "mono fl \<and> fl 0 = 0 \<and> fl (val (d_tenth ar)) = val (d_tenth ar) \<and> 0 \<le> val (d_tenth ar)
         \<and> roundedProduct ar val fl r (d_tenth ar)
         \<and> roundedProduct ar val fl (d_mul ar r (d_tenth ar)) (exponentialDelay ar k config)
         \<and> roundedProduct ar val fl (d_tenth ar) (exponentialDelay ar k config)
         \<and> 0 \<le> val r \<and> val r \<le> 1 \<and> 0 \<le> val (exponentialDelay ar k config) \<longrightarrow>
         0 \<le> val (jitter ar k config r)
         \<and> val (jitter ar k config r)
             \<le> val (d_mul ar (d_tenth ar) (exponentialDelay ar k config))"
    using jitter_bounds [of fl val ar r k config] by blast
  have inc: "exactPower ar val (backoffMultiplier config) k
         \<and> exactPower ar val (backoffMultiplier config) (Suc k)
         \<and> exactProduct ar val (baseDelay config) (d_pow ar (backoffMultiplier config) k)
         \<and> exactProduct ar val (baseDelay config) (d_pow ar (backoffMultiplier config) (Suc k))
         \<and> 0 < val (baseDelay config) \<and> 1 < val (backoffMultiplier config) \<longrightarrow>
         val (exponentialDelay ar k config) < val (exponentialDelay ar (Suc k) config)"
    using exponentialDelay_increasing [of ar val config k] by blast
  have sl: "k < length (sleeps (executeWithRetry ar config operation rnd)) \<longrightarrow>
         sleeps (executeWithRetry ar config operation rnd) ! k
           = calculateDelay ar k config (rnd (Suc k))"
    unfolding executeWithRetry_def
    by (intro impI retryLoop_sleeps) simp_all
  have bnd: "int (length (sleeps (executeWithRetry ar config operation rnd)))
         \<le> max 0 (maxRetries config)
      \<and> invocations (executeWithRetry ar config operation rnd)
         \<le> Suc (length (sleeps (executeWithRetry ar config operation rnd)))"
    unfolding executeWithRetry_def
    using retryLoop_bounds [where attempt = 1 and calls = 0 and slept = "[]" and ar = ar
        and config = config and operation = operation and rnd = rnd and lastError = None]
    by simp
  have lst: "\<not> success (result (executeWithRetry ar config operation rnd))
         \<and> 0 < invocations (executeWithRetry ar config operation rnd) \<longrightarrow>
         (\<exists>e. operation (invocations (executeWithRetry ar config operation rnd)) = Inl e
            \<and> error (result (executeWithRetry ar config operation rnd)) = Some e)"
    unfolding executeWithRetry_def
    using retryLoop_last_error [where calls = 0 and operation = operation and lastError = None
        and ar = ar and config = config and rnd = rnd and attempt = 1 and slept = "[]"]
    by blast
  from form jit inc sl bnd lst show ?thesis by blast
qed

theorem retry_backoff_witness:
  "calculateDelay exactArith 2 defaultConfig (1 / 2) = 4200
   \<and> 0 \<le> jitter exactArith 2 defaultConfig (1 / 2)
   \<and> jitter exactArith 2 defaultConfig (1 / 2)
       \<le> d_mul exactArith (d_tenth exactArith) (exponentialDelay exactArith 2 defaultConfig)
   \<and> exponentialDelay exactArith 2 defaultConfig < exponentialDelay exactArith (Suc 2) defaultConfig
   \<and> sleeps (executeWithRetry exactArith defaultConfig (alwaysThrows timeoutMessage) (\<lambda>n. 1 / 2))
       = [1050, 2100, 4200]
   \<and> invocations (executeWithRetry exactArith defaultConfig (alwaysThrows timeoutMessage)
        (\<lambda>n. 1 / 2)) = 4
   \<and> error (result (executeWithRetry exactArith defaultConfig (alwaysThrows timeoutMessage)
        (\<lambda>n. 1 / 2))) = Some timeoutMessage"
proof -
  have ev: "sleeps (executeWithRetry exactArith defaultConfig (alwaysThrows timeoutMessage)
        (\<lambda>n. 1 / 2)) = [1050, 2100, 4200]
     \<and> invocations (executeWithRetry exactArith defaultConfig (alwaysThrows timeoutMessage)
        (\<lambda>n. 1 / 2)) = 4
     \<and> error (result (executeWithRetry exactArith defaultConfig (alwaysThrows timeoutMessage)
        (\<lambda>n. 1 / 2))) = Some timeoutMessage
     \<and> calculateDelay exactArith 2 defaultConfig (1 / 2) = 4200"
    by code_simp
  have h1: "mono (\<lambda>x::real. x)" by (simp add: mono_def)
  have h2: "roundedProduct exactArith (\<lambda>x. x) (\<lambda>x. x) x y"
    and h3: "exactProduct exactArith (\<lambda>x. x) x y"
    and h4: "exactPower exactArith (\<lambda>x. x) x n" for x y n
    by (simp_all add: roundedProduct_def exactProduct_def exactPower_def exactArith_def)
  have h5: "0 \<le> exponentialDelay exactArith 2 defaultConfig"
    and h6: "0 < baseDelay defaultConfig" and h7: "1 < backoffMultiplier defaultConfig"
    and h8: "0 \<le> d_tenth exactArith"
    by (simp_all add: exponentialDelay_def exactArith_def defaultConfig_def)
  note th = retry_backoff [where ar = exactArith and val = "\<lambda>x. x" and fl = "\<lambda>x. x"
      and config = defaultConfig and rnd = "\<lambda>n. 1 / 2" and r = "1 / 2" and k = 2
      and operation = "alwaysThrows timeoutMessage"]
  from th [THEN conjunct2, THEN conjunct2, THEN conjunct2] ev h1 h2 h3 h4 h5 h6 h7 h8
  show ?thesis by simp
qed

text \<open>
  C10. Whenever \<open>executeWithRetry\<close> returns an unsuccessful result, the \<open>attempts\<close> it
  reports is \<open>maxRetries + 1\<close>, whatever number of attempts it made. The witness is a
  CAPTCHA error, which ends the run at the first attempt: one invocation, 4 attempts
  reported, as for a timeout that exhausts all 4 attempts.
\<close>

theorem failed_run_reports_max_attempts:
  "\<not> success (result (executeWithRetry ar config operation rnd)) \<Longrightarrow>
   attempts (result (executeWithRetry ar config operation rnd)) = maxRetries config + 1"
  unfolding executeWithRetry_def by (rule retryLoop_failed_attempts)

theorem failed_run_reports_max_attempts_witness:
  "\<not> success (result (executeWithRetry exactArith defaultConfig (alwaysThrows captchaMessage) (\<lambda>n. 0)))
   \<and> invocations (executeWithRetry exactArith defaultConfig (alwaysThrows captchaMessage) (\<lambda>n. 0)) = 1
   \<and> attempts (result (executeWithRetry exactArith defaultConfig (alwaysThrows captchaMessage) (\<lambda>n. 0))) = 4
   \<and> invocations (executeWithRetry exactArith defaultConfig (alwaysThrows timeoutMessage) (\<lambda>n. 0)) = 4
   \<and> attempts (result (executeWithRetry exactArith defaultConfig (alwaysThrows timeoutMessage) (\<lambda>n. 0))) = 4"
proof -
  have ev: "\<not> success (result (executeWithRetry exactArith defaultConfig (alwaysThrows captchaMessage) (\<lambda>n. 0)))
     \<and> invocations (executeWithRetry exactArith defaultConfig (alwaysThrows captchaMessage) (\<lambda>n. 0)) = 1
     \<and> invocations (executeWithRetry exactArith defaultConfig (alwaysThrows timeoutMessage) (\<lambda>n. 0)) = 4
     \<and> \<not> success (result (executeWithRetry exactArith defaultConfig (alwaysThrows timeoutMessage) (\<lambda>n. 0)))
     \<and> maxRetries defaultConfig + 1 = 4"
    by code_simp
  from ev failed_run_reports_max_attempts [of exactArith defaultConfig "alwaysThrows captchaMessage" "\<lambda>n. 0"]
    failed_run_reports_max_attempts [of exactArith defaultConfig "alwaysThrows timeoutMessage" "\<lambda>n. 0"]
  show ?thesis by simp
qed

section \<open>Properties of the job queue\<close>

text \<open>The order of \<open>findFirst\<close>, and the row it returns.\<close>

lemma sortsBefore_asym: "sortsBefore a b \<Longrightarrow> \<not> sortsBefore b a"
  by (auto simp add: sortsBefore_def)

lemma sortsBefore_negtrans: "\<not> sortsBefore a b \<Longrightarrow> \<not> sortsBefore b c \<Longrightarrow> \<not> sortsBefore a c"
  by (auto simp add: sortsBefore_def)

lemma firstInOrder_None: "firstInOrder xs = None \<longleftrightarrow> xs = []"
  by (cases xs) (auto split: option.splits)

lemma firstInOrder_Some:
  "firstInOrder xs = Some j \<Longrightarrow> j \<in> set xs \<and> (\<forall>k\<in>set xs. \<not> sortsBefore k j)"
proof (induction xs arbitrary: j)
  case Nil
  then show ?case by simp
next
  case (Cons x xs)
  show ?case
  proof (cases "firstInOrder xs")
    case None
    then have "xs = []" by (simp add: firstInOrder_None)
    with Cons.prems show ?thesis by (simp add: sortsBefore_def)
  next
    case (Some k)
    from Cons.IH [OF Some] have k: "k \<in> set xs" and kmin: "\<forall>y\<in>set xs. \<not> sortsBefore y k"
      by simp_all
    show ?thesis
    proof (cases "sortsBefore k x")
      case True
      with Some Cons.prems have "j = k" by simp
      with k kmin True show ?thesis by (auto dest: sortsBefore_asym)
    next
      case False
      with Some Cons.prems have "j = x" by simp
      moreover have "\<forall>y\<in>set xs. \<not> sortsBefore y x"
        using kmin False by (meson sortsBefore_negtrans)
      moreover have "\<not> sortsBefore x x" by (simp add: sortsBefore_def)
      ultimately show ?thesis by simp
    qed
  qed
qed

lemma findFirstPending_None:
  "findFirstPending table = None \<longleftrightarrow> (\<forall>k\<in>set table. status k \<noteq> PENDING)"
  by (auto simp add: findFirstPending_def firstInOrder_None filter_empty_conv)

lemma findFirstPending_Some:
  assumes "findFirstPending table = Some j"
  shows "j \<in> set table" and "status j = PENDING"
    and "\<forall>k\<in>set table. status k = PENDING \<longrightarrow> \<not> sortsBefore k j"
  using firstInOrder_Some [OF assms [unfolded findFirstPending_def]] by auto

lemma not_sortsBefore_iff:
  "\<not> sortsBefore k j \<longleftrightarrow>
     priorityRank (priority k) \<le> priorityRank (priority j)
     \<and> (priorityRank (priority k) = priorityRank (priority j) \<longrightarrow> createdAt j \<le> createdAt k)"
  by (auto simp add: sortsBefore_def)

lemma priorityRank_inj: "priorityRank a = priorityRank b \<longleftrightarrow> a = b"
  by (cases a; cases b) simp_all

lemma updateJob_distinct:
  "distinct (map jobId table) \<Longrightarrow> i < length table \<Longrightarrow>
   updateJob (jobId (table ! i)) f table = table[i := f (table ! i)]"
proof (induction table arbitrary: i)
  case Nil
  then show ?case by simp
next
  case (Cons x xs)
  show ?case
  proof (cases i)
    case 0
    have "\<forall>y\<in>set xs. jobId y \<noteq> jobId x" using Cons.prems(1) by (auto simp add: image_iff)
    then have "map (\<lambda>j. if jobId j = jobId x then f j else j) xs = xs"
      by (intro map_idI) simp
    with 0 show ?thesis by (simp add: updateJob_def)
  next
    case (Suc n)
    with Cons.prems have n: "n < length xs" and d: "distinct (map jobId xs)" by simp_all
    have "jobId x \<noteq> jobId (xs ! n)" using Cons.prems(1) n by force
    with Suc Cons.IH [OF d n] show ?thesis by (simp add: updateJob_def)
  qed
qed

lemma poll_saturated:
  "processing q \<or> maxConcurrentJobs q \<le> int (length (currentJobs q)) \<Longrightarrow>
   processQueue q now = (q, None)"
  by (auto simp add: processQueue_def)

lemma poll_none_pending:
  "\<not> processing q \<Longrightarrow> findFirstPending (jobs q) = None \<Longrightarrow> processQueue q now = (q, None)"
  by (simp add: processQueue_def)

lemma poll_dispatches:
  assumes d: "distinct (map jobId (jobs q))"
    and free: "\<not> processing q" "int (length (currentJobs q)) < maxConcurrentJobs q"
    and first: "findFirstPending (jobs q) = Some j"
  shows "snd (processQueue q now) = Some (jobId j)"
    and "\<exists>i<length (jobs q). jobs q ! i = j
           \<and> jobs (fst (processQueue q now))
               = (jobs q)[i := j\<lparr> status := PROCESSING, startedAt := Some now, updatedAt := now \<rparr>]"
    and "currentJobs (fst (processQueue q now)) = setAdd (jobId j) (currentJobs q)"
proof -
  have pq: "processQueue q now =
      (q\<lparr> jobs := updateJob (jobId j)
                  (\<lambda>j. j\<lparr> status := PROCESSING, startedAt := Some now, updatedAt := now \<rparr>) (jobs q),
          currentJobs := setAdd (jobId j) (currentJobs q), processing := False \<rparr>,
       Some (jobId j))"
    using free first by (simp add: processQueue_def)
  show "snd (processQueue q now) = Some (jobId j)" by (simp add: pq)
  show "currentJobs (fst (processQueue q now)) = setAdd (jobId j) (currentJobs q)"
    by (simp add: pq)
  from findFirstPending_Some(1) [OF first] obtain i where i: "i < length (jobs q)" "jobs q ! i = j"
    by (auto simp add: in_set_conv_nth)
  from updateJob_distinct [OF d i(1)] i(2)
  have "updateJob (jobId j)
          (\<lambda>j. j\<lparr> status := PROCESSING, startedAt := Some now, updatedAt := now \<rparr>) (jobs q)
        = (jobs q)[i := j\<lparr> status := PROCESSING, startedAt := Some now, updatedAt := now \<rparr>]"
    by simp
  with i show "\<exists>i<length (jobs q). jobs q ! i = j
           \<and> jobs (fst (processQueue q now))
               = (jobs q)[i := j\<lparr> status := PROCESSING, startedAt := Some now, updatedAt := now \<rparr>]"
    by (auto simp add: pq)
qed

text \<open>
  While the in-flight set agrees with the table, its size is the number of jobs in
  PROCESSING.
\<close>

lemma inSync_length:
  assumes "inSync q"
  shows "length (currentJobs q) = length (processingJobs q)"
proof -
  have "distinct (map jobId (processingJobs q))"
    using assms unfolding inSync_def processingJobs_def by (simp add: distinct_map_filter)
  then have p: "card (set (map jobId (processingJobs q))) = length (processingJobs q)"
    by (metis distinct_card length_map)
  have eq: "set (currentJobs q) = set (map jobId (processingJobs q))"
    using assms by (simp add: inSync_def)
  have dc: "distinct (currentJobs q)" using assms by (simp add: inSync_def)
  have "length (currentJobs q) = card (set (currentJobs q))"
    using dc by (simp add: distinct_card)
  also have "\<dots> = card (set (map jobId (processingJobs q)))" by (simp only: eq)
  also have "\<dots> = length (processingJobs q)" by (rule p)
  finally show ?thesis .
qed

lemma updateJob_ids:
  "(\<And>j. jobId (f j) = jobId j) \<Longrightarrow> map jobId (updateJob ident f table) = map jobId table"
  by (induction table) (simp_all add: updateJob_def)

lemma in_set_updateJob:
  "set (updateJob ident f table) = (\<lambda>j. if jobId j = ident then f j else j) ` set table"
  by (simp add: updateJob_def)

lemma set_setAdd: "set (setAdd x xs) = insert x (set xs)"
  by (auto simp add: setAdd_def)

lemma set_setDelete: "set (setDelete x xs) = set xs - {x}"
  by (auto simp add: setDelete_def)

lemma distinct_setAdd: "distinct xs \<Longrightarrow> distinct (setAdd x xs)"
  by (simp add: setAdd_def)

lemma distinct_setDelete: "distinct xs \<Longrightarrow> distinct (setDelete x xs)"
  by (simp add: setDelete_def)

text \<open>The ids of the rows in PROCESSING after an update of the row \<open>ident\<close>.\<close>

lemma processing_ids_started:
  assumes "\<And>j. jobId (f j) = jobId j" and "\<And>j. status (f j) = PROCESSING"
    and "ident \<in> jobId ` set table"
  shows "jobId ` {k \<in> set (updateJob ident f table). status k = PROCESSING}
       = insert ident (jobId ` {k \<in> set table. status k = PROCESSING})"
proof (intro set_eqI iffI)
  fix x
  assume "x \<in> jobId ` {k \<in> set (updateJob ident f table). status k = PROCESSING}"
  then obtain r where r: "r \<in> set table"
      and x: "x = jobId (if jobId r = ident then f r else r)"
      and st: "status (if jobId r = ident then f r else r) = PROCESSING"
    by (auto simp add: in_set_updateJob)
  show "x \<in> insert ident (jobId ` {k \<in> set table. status k = PROCESSING})"
  proof (cases "jobId r = ident")
    case True
    with x assms(1) show ?thesis by simp
  next
    case False
    with x st r show ?thesis by auto
  qed
next
  fix x
  assume "x \<in> insert ident (jobId ` {k \<in> set table. status k = PROCESSING})"
  then consider "x = ident" | r where "r \<in> set table" "status r = PROCESSING" "x = jobId r"
    by auto
  then show "x \<in> jobId ` {k \<in> set (updateJob ident f table). status k = PROCESSING}"
  proof cases
    case 1
    from assms(3) obtain r where r: "r \<in> set table" "jobId r = ident" by auto
    then have "f r \<in> set (updateJob ident f table)" by (force simp add: in_set_updateJob)
    moreover have "status (f r) = PROCESSING" by (rule assms(2))
    moreover have "jobId (f r) = x" using 1 r(2) assms(1) by simp
    ultimately show ?thesis by force
  next
    case 2
    let ?r' = "if jobId r = ident then f r else r"
    have "?r' \<in> set (updateJob ident f table)" using 2(1) by (simp add: in_set_updateJob)
    moreover have "status ?r' = PROCESSING" using 2(2) assms(2) by simp
    moreover have "jobId ?r' = x" using 2(3) assms(1) by simp
    ultimately show ?thesis by force
  qed
qed

lemma processing_ids_ended:
  assumes "\<And>j. jobId (f j) = jobId j" and "\<And>j. status (f j) \<noteq> PROCESSING"
  shows "jobId ` {k \<in> set (updateJob ident f table). status k = PROCESSING}
       = jobId ` {k \<in> set table. status k = PROCESSING} - {ident}"
proof (intro set_eqI iffI)
  fix x
  assume "x \<in> jobId ` {k \<in> set (updateJob ident f table). status k = PROCESSING}"
  then obtain r where r: "r \<in> set table"
      and x: "x = jobId (if jobId r = ident then f r else r)"
      and st: "status (if jobId r = ident then f r else r) = PROCESSING"
    by (auto simp add: in_set_updateJob)
  from st assms(2) have ne: "jobId r \<noteq> ident" by (auto split: if_splits)
  with x st r show "x \<in> jobId ` {k \<in> set table. status k = PROCESSING} - {ident}" by auto
next
  fix x
  assume "x \<in> jobId ` {k \<in> set table. status k = PROCESSING} - {ident}"
  then obtain r where r: "r \<in> set table" "status r = PROCESSING" "x = jobId r" "jobId r \<noteq> ident"
    by auto
  then have "r \<in> set (updateJob ident f table)" by (force simp add: in_set_updateJob)
  with r show "x \<in> jobId ` {k \<in> set (updateJob ident f table). status k = PROCESSING}" by auto
qed

lemma processing_ids_kept:
  assumes "\<And>j. jobId (f j) = jobId j" and "\<And>j. status (f j) = status j"
  shows "jobId ` {k \<in> set (updateJob ident f table). status k = PROCESSING}
       = jobId ` {k \<in> set table. status k = PROCESSING}"
proof (intro set_eqI iffI)
  fix x
  assume "x \<in> jobId ` {k \<in> set (updateJob ident f table). status k = PROCESSING}"
  then obtain r where r: "r \<in> set table"
      and x: "x = jobId (if jobId r = ident then f r else r)"
      and st: "status (if jobId r = ident then f r else r) = PROCESSING"
    by (auto simp add: in_set_updateJob)
  from x st assms have "x = jobId r" "status r = PROCESSING" by (auto split: if_splits)
  with r show "x \<in> jobId ` {k \<in> set table. status k = PROCESSING}" by auto
next
  fix x
  assume "x \<in> jobId ` {k \<in> set table. status k = PROCESSING}"
  then obtain r where r: "r \<in> set table" "status r = PROCESSING" "x = jobId r" by auto
  let ?r' = "if jobId r = ident then f r else r"
  have "?r' \<in> set (updateJob ident f table)" using r(1) by (simp add: in_set_updateJob)
  moreover have "status ?r' = PROCESSING" "jobId ?r' = x" using r assms by simp_all
  ultimately show "x \<in> jobId ` {k \<in> set (updateJob ident f table). status k = PROCESSING}"
    by force
qed

text \<open>
  The methods of the queue keep the in-flight set in agreement with the table; the
  reaper does when no job is stalled.
\<close>

lemma inSync_new: "inSync (newJobQueue cap)"
  by (simp add: inSync_def newJobQueue_def processingJobs_def)

lemma inSync_processQueue:
  assumes "inSync q"
  shows "inSync (fst (processQueue q now))"
proof (cases "processing q \<or> maxConcurrentJobs q \<le> int (length (currentJobs q))")
  case True
  with assms show ?thesis by (auto simp add: processQueue_def)
next
  case False
  show ?thesis
  proof (cases "findFirstPending (jobs q)")
    case None
    with False assms show ?thesis
      by (simp add: processQueue_def inSync_def processingJobs_def)
  next
    case (Some j)
    let ?f = "\<lambda>j. j\<lparr> status := PROCESSING, startedAt := Some now, updatedAt := now \<rparr>"
    from Some False have pq: "fst (processQueue q now) =
        q\<lparr> jobs := updateJob (jobId j) ?f (jobs q),
           currentJobs := setAdd (jobId j) (currentJobs q), processing := False \<rparr>"
      by (simp add: processQueue_def)
    have mem: "jobId j \<in> jobId ` set (jobs q)"
      using findFirstPending_Some(1) [OF Some] by simp
    have ids: "jobId ` {k \<in> set (updateJob (jobId j) ?f (jobs q)). status k = PROCESSING}
        = insert (jobId j) (jobId ` {k \<in> set (jobs q). status k = PROCESSING})"
      using mem by (intro processing_ids_started) simp_all
    show ?thesis
      using assms ids unfolding pq inSync_def processingJobs_def
      by (simp add: updateJob_ids set_setAdd distinct_setAdd)
  qed
qed

lemma inSync_addJob:
  assumes "inSync q" and "newId \<notin> set (map jobId (jobs q))"
  shows "inSync (fst (addJob q newId prio now))"
proof -
  have "inSync (q\<lparr> jobs := jobs q @
      [\<lparr> jobId = newId, priority = (case prio of None \<Rightarrow> NORMAL | Some p \<Rightarrow> p),
         status = PENDING, progress = 0, createdAt = now, startedAt = None,
         completedAt = None, updatedAt = now, jobError = None, listingsFound = 0 \<rparr>] \<rparr>)"
    using assms by (auto simp add: inSync_def processingJobs_def)
  then show ?thesis
    unfolding addJob_def Let_def by (rule inSync_processQueue)
qed

lemma inSync_completeJob:
  assumes "inSync q"
  shows "inSync (fst (completeJob q ident ok found err now))"
proof (cases "findUnique ident (jobs q)")
  case None
  with assms show ?thesis by (simp add: completeJob_def)
next
  case (Some job)
  let ?f = "\<lambda>j. j\<lparr> status := (if ok then COMPLETED else FAILED),
                   progress := (if ok then 100 else 0),
                   listingsFound := found, jobError := err,
                   completedAt := Some now, updatedAt := now \<rparr>"
  have ids: "jobId ` {k \<in> set (updateJob ident ?f (jobs q)). status k = PROCESSING}
        = jobId ` {k \<in> set (jobs q). status k = PROCESSING} - {ident}"
    by (intro processing_ids_ended) simp_all
  have "inSync (q\<lparr> jobs := updateJob ident ?f (jobs q),
                   currentJobs := setDelete ident (currentJobs q) \<rparr>)"
    using assms ids unfolding inSync_def processingJobs_def
    by (simp add: updateJob_ids set_setDelete distinct_setDelete)
  then show ?thesis
    using Some by (simp add: completeJob_def inSync_processQueue)
qed

lemma inSync_cancelJob:
  assumes "inSync q"
  shows "inSync (fst (cancelJob q ident now))"
proof (cases "findUnique ident (jobs q)")
  case None
  with assms show ?thesis by (simp add: cancelJob_def)
next
  case (Some job)
  let ?f = "\<lambda>j. j\<lparr> status := CANCELLED, updatedAt := now \<rparr>"
  have ids: "jobId ` {k \<in> set (updateJob ident ?f (jobs q)). status k = PROCESSING}
        = jobId ` {k \<in> set (jobs q). status k = PROCESSING} - {ident}"
    by (intro processing_ids_ended) simp_all
  have "inSync (q\<lparr> jobs := updateJob ident ?f (jobs q),
                   currentJobs := setDelete ident (currentJobs q) \<rparr>)"
    using assms ids unfolding inSync_def processingJobs_def
    by (simp add: updateJob_ids set_setDelete distinct_setDelete)
  with assms Some show ?thesis by (simp add: cancelJob_def)
qed

lemma inSync_updateJobProgress:
  assumes "inSync q"
  shows "inSync (updateJobProgress q ident pct now)"
proof -
  let ?f = "\<lambda>j. j\<lparr> progress := pct, updatedAt := now \<rparr>"
  have ids: "jobId ` {k \<in> set (updateJob ident ?f (jobs q)). status k = PROCESSING}
        = jobId ` {k \<in> set (jobs q). status k = PROCESSING}"
    by (intro processing_ids_kept) simp_all
  show ?thesis
    using assms ids unfolding inSync_def processingJobs_def updateJobProgress_def
    by (simp add: updateJob_ids)
qed

lemma inSync_cleanup:
  assumes "inSync q" and "\<not> list_ex (stalled now) (jobs q)"
  shows "inSync (cleanup q now)"
proof -
  have "map (\<lambda>j. if stalled now j
                  then j\<lparr> status := FAILED,
                         jobError := Some ''Job timed out (stalled for more than 10 minutes)'',
                         updatedAt := now \<rparr>
                  else j) (jobs q) = jobs q"
    using assms(2) by (intro map_idI) (auto simp add: list_ex_iff)
  then have "cleanup q now = q" by (simp add: cleanup_def)
  with assms(1) show ?thesis by simp
qed

lemma cleanup_currentJobs: "currentJobs (cleanup q now) = currentJobs q"
  by (simp add: cleanup_def)

lemma cleanup_stalled_row:
  "i < length (jobs q) \<Longrightarrow> stalled now (jobs q ! i) \<Longrightarrow>
   jobs (cleanup q now) ! i
     = (jobs q ! i)\<lparr> status := FAILED,
                       jobError := Some ''Job timed out (stalled for more than 10 minutes)'',
                       updatedAt := now \<rparr>"
  by (simp add: cleanup_def)

lemma stale_update_is_stalled:
  "status j = PROCESSING \<Longrightarrow> startedAt j = Some t \<Longrightarrow> t \<le> updatedAt j \<Longrightarrow>
   updatedAt j < now - stallTimeout \<Longrightarrow> stalled now j"
  by (simp add: stalled_def)

text \<open>
  C3, at the failing input. The claim has the slot of a reaped job released. Under cap 1
  a job is dispatched at 0 and never reports back, a second job is submitted behind it,
  and the reaper runs after ten minutes and one millisecond: the first job is FAILED with
  the timeout error and no job is in PROCESSING, but its id is still in \<open>currentJobs\<close>,
  which is what the poll compares with the cap, so the poll that follows dispatches
  nothing and the second job stays PENDING. (\<open>completeJob\<close> and \<open>cancelJob\<close> delete the
  id from \<open>currentJobs\<close>; \<open>cleanup\<close> does not.)
\<close>

theorem reaped_job_keeps_its_slot:
  "map status (jobs (fst (runOps (newJobQueue 1) stalledScript))) = [FAILED, PENDING]
   \<and> map jobError (jobs (fst (runOps (newJobQueue 1) stalledScript)))
       = [Some ''Job timed out (stalled for more than 10 minutes)'', None]
   \<and> processingJobs (fst (runOps (newJobQueue 1) stalledScript)) = []
   \<and> currentJobs (fst (runOps (newJobQueue 1) stalledScript)) = [''stuck'']
   \<and> snd (runOps (newJobQueue 1) stalledScript) = [''stuck'']"
  by code_simp

text \<open>
  C5, the claim as stated fails. It has three jobs submitted with priorities LOW, HIGH,
  NORMAL under cap 1 dispatched in the order HIGH, NORMAL, LOW. \<open>addJob\<close> polls as soon
  as it has created the row, so on an idle queue the LOW job, the only PENDING one at that
  moment, is dispatched by its own submission: the order is LOW, HIGH, NORMAL. And it has
  every poll below the cap select a job: a poll made while another poll is in progress
  returns at once, with no job in PROCESSING, cap 1 and three jobs PENDING.
\<close>

theorem low_dispatched_first_and_reentrant_poll_idle:
  "snd (runOps (newJobQueue 1) idleSubmission) \<noteq> [''high'', ''normal'', ''low'']
   \<and> int (length (processingJobs pollInProgress)) < maxConcurrentJobs pollInProgress
   \<and> map status (jobs pollInProgress) = [PENDING, PENDING, PENDING]
   \<and> snd (processQueue pollInProgress 10) = None
   \<and> map status (jobs (fst (processQueue pollInProgress 10))) = [PENDING, PENDING, PENDING]"
  by code_simp

text \<open>
  C5, amended. Of a queue whose set of in-flight ids agrees with the table, which is how
  submission, polling, progress, completion and cancellation leave it (the reaper leaves
  it otherwise, see C3, and what a poll does then is not stated here): a poll dispatches
  nothing when the number of jobs in PROCESSING is at or above the cap. Otherwise, unless
  another poll is in progress, it dispatches nothing when no job is PENDING, and else it
  selects a PENDING job that is greatest by priority (HIGH > NORMAL > LOW) and, among
  those of its priority, of earliest creation time, and transitions exactly that row to
  PROCESSING, after which the in-flight set agrees with the table again. A poll made
  while another poll is in progress dispatches nothing. Submission polls at once: three
  jobs submitted with priorities LOW, HIGH, NORMAL under cap 1 are dispatched HIGH,
  NORMAL, LOW when the slot is taken while they are submitted, and LOW, HIGH, NORMAL when
  the queue is idle.
\<close>

theorem poll_dispatch:
  "(inSync q \<longrightarrow>
      (maxConcurrentJobs q \<le> int (length (processingJobs q)) \<longrightarrow>
         processQueue q now = (q, None))
      \<and> (int (length (processingJobs q)) < maxConcurrentJobs q \<and> \<not> processing q \<longrightarrow>
           (case findFirstPending (jobs q) of
              None \<Rightarrow> (\<forall>k\<in>set (jobs q). status k \<noteq> PENDING) \<and> processQueue q now = (q, None)
            | Some j \<Rightarrow>
                j \<in> set (jobs q) \<and> status j = PENDING
                \<and> (\<forall>k\<in>set (jobs q). status k = PENDING \<longrightarrow>
                      priorityRank (priority k) \<le> priorityRank (priority j)
                      \<and> (priority k = priority j \<longrightarrow> createdAt j \<le> createdAt k))
                \<and> snd (processQueue q now) = Some (jobId j)
                \<and> (\<exists>i<length (jobs q). jobs q ! i = j
                      \<and> jobs (fst (processQueue q now))
                          = (jobs q)[i := j\<lparr> status := PROCESSING, startedAt := Some now,
                                               updatedAt := now \<rparr>])
                \<and> inSync (fst (processQueue q now)))))
    \<and> (processing q \<longrightarrow> processQueue q now = (q, None))
    \<and> snd (runOps (newJobQueue 1) busySubmission) = [''first'', ''high'', ''normal'', ''low'']
    \<and> snd (runOps (newJobQueue 1) idleSubmission) = [''low'', ''high'', ''normal'']"
proof -
  have main: "inSync q \<longrightarrow>
      (maxConcurrentJobs q \<le> int (length (processingJobs q)) \<longrightarrow>
         processQueue q now = (q, None))
      \<and> (int (length (processingJobs q)) < maxConcurrentJobs q \<and> \<not> processing q \<longrightarrow>
           (case findFirstPending (jobs q) of
              None \<Rightarrow> (\<forall>k\<in>set (jobs q). status k \<noteq> PENDING) \<and> processQueue q now = (q, None)
            | Some j \<Rightarrow>
                j \<in> set (jobs q) \<and> status j = PENDING
                \<and> (\<forall>k\<in>set (jobs q). status k = PENDING \<longrightarrow>
                      priorityRank (priority k) \<le> priorityRank (priority j)
                      \<and> (priority k = priority j \<longrightarrow> createdAt j \<le> createdAt k))
                \<and> snd (processQueue q now) = Some (jobId j)
                \<and> (\<exists>i<length (jobs q). jobs q ! i = j
                      \<and> jobs (fst (processQueue q now))
                          = (jobs q)[i := j\<lparr> status := PROCESSING, startedAt := Some now,
                                               updatedAt := now \<rparr>])
                \<and> inSync (fst (processQueue q now))))"
  proof (intro impI conjI)
    assume sync: "inSync q"
    assume "maxConcurrentJobs q \<le> int (length (processingJobs q))"
    then show "processQueue q now = (q, None)"
      using inSync_length [OF sync] by (simp add: poll_saturated)
  next
    assume sync: "inSync q"
    assume free: "int (length (processingJobs q)) < maxConcurrentJobs q \<and> \<not> processing q"
    have d: "distinct (map jobId (jobs q))" using sync by (simp add: inSync_def)
    from free have f1: "\<not> processing q"
      and f2: "int (length (currentJobs q)) < maxConcurrentJobs q"
      using inSync_length [OF sync] by simp_all
    show "case findFirstPending (jobs q) of
            None \<Rightarrow> (\<forall>k\<in>set (jobs q). status k \<noteq> PENDING) \<and> processQueue q now = (q, None)
          | Some j \<Rightarrow>
              j \<in> set (jobs q) \<and> status j = PENDING
              \<and> (\<forall>k\<in>set (jobs q). status k = PENDING \<longrightarrow>
                    priorityRank (priority k) \<le> priorityRank (priority j)
                    \<and> (priority k = priority j \<longrightarrow> createdAt j \<le> createdAt k))
              \<and> snd (processQueue q now) = Some (jobId j)
              \<and> (\<exists>i<length (jobs q). jobs q ! i = j
                    \<and> jobs (fst (processQueue q now))
                        = (jobs q)[i := j\<lparr> status := PROCESSING, startedAt := Some now,
                                             updatedAt := now \<rparr>])
              \<and> inSync (fst (processQueue q now))"
    proof (cases "findFirstPending (jobs q)")
      case None
      with f1 show ?thesis
        by (simp add: poll_none_pending) (simp add: findFirstPending_None [symmetric])
    next
      case (Some j)
      have best: "\<forall>k\<in>set (jobs q). status k = PENDING \<longrightarrow>
                    priorityRank (priority k) \<le> priorityRank (priority j)
                    \<and> (priority k = priority j \<longrightarrow> createdAt j \<le> createdAt k)"
        using findFirstPending_Some(3) [OF Some]
        by (auto simp add: not_sortsBefore_iff)
      show ?thesis
        using Some findFirstPending_Some(1,2) [OF Some] best
          poll_dispatches(1,2) [OF d f1 f2 Some, of now] inSync_processQueue [OF sync, of now]
        by simp
    qed
  qed
  have guard: "processing q \<longrightarrow> processQueue q now = (q, None)"
    by (simp add: poll_saturated)
  have busy: "snd (runOps (newJobQueue 1) busySubmission) = [''first'', ''high'', ''normal'', ''low'']"
    by code_simp
  have idle: "snd (runOps (newJobQueue 1) idleSubmission) = [''low'', ''high'', ''normal'']"
    by code_simp
  from main guard busy idle show ?thesis by blast
qed

theorem poll_dispatch_witness:
  "inSync pendingQueue
   \<and> int (length (processingJobs pendingQueue)) < maxConcurrentJobs pendingQueue
   \<and> \<not> processing pendingQueue
   \<and> map_option jobId (findFirstPending (jobs pendingQueue)) = Some ''high''
   \<and> snd (processQueue pendingQueue 10) = Some ''high''
   \<and> map status (jobs (fst (processQueue pendingQueue 10))) = [PENDING, PROCESSING, PENDING]
   \<and> inSync (fst (processQueue pendingQueue 10))
   \<and> maxConcurrentJobs (fst (processQueue pendingQueue 10))
        \<le> int (length (processingJobs (fst (processQueue pendingQueue 10))))
   \<and> processQueue (fst (processQueue pendingQueue 10)) 11 = (fst (processQueue pendingQueue 10), None)
   \<and> processing pollInProgress
   \<and> processQueue pollInProgress 10 = (pollInProgress, None)"
proof -
  have h: "inSync pendingQueue" by code_simp
  have ev: "\<not> processing pendingQueue
     \<and> int (length (processingJobs pendingQueue)) < maxConcurrentJobs pendingQueue
     \<and> map_option jobId (findFirstPending (jobs pendingQueue)) = Some ''high''
     \<and> map status (jobs (fst (processQueue pendingQueue 10))) = [PENDING, PROCESSING, PENDING]
     \<and> snd (processQueue pendingQueue 10) = Some ''high''
     \<and> maxConcurrentJobs (fst (processQueue pendingQueue 10))
          \<le> int (length (processingJobs (fst (processQueue pendingQueue 10))))
     \<and> inSync (fst (processQueue pendingQueue 10))
     \<and> processing pollInProgress"
    by code_simp
  from poll_dispatch [of pendingQueue 10] poll_dispatch [of "fst (processQueue pendingQueue 10)" 11]
    poll_dispatch [of pollInProgress 10] h ev
  show ?thesis by simp
qed

section \<open>Properties of the circuit breaker\<close>

lemma open_rejects:
  "state b = OPEN \<Longrightarrow> now - lastFailureTime b \<le> resetTimeout \<Longrightarrow>
   execute maxFailures resetTimeout b now operation failTime
     = \<lparr> breaker = b, invoked = False,
         outcome = Inl ''Circuit breaker is open - too many recent failures'' \<rparr>"
  by (simp add: execute_def)

lemma trial_after_timeout:
  "state b = OPEN \<Longrightarrow> now - lastFailureTime b > resetTimeout \<Longrightarrow>
   invoked (execute maxFailures resetTimeout b now operation failTime)"
  by (simp add: execute_def Let_def split: sum.splits)

lemma trial_success_closes:
  "state b = OPEN \<Longrightarrow> now - lastFailureTime b > resetTimeout \<Longrightarrow>
   breaker (execute maxFailures resetTimeout b now (Inr r) failTime)
     = b\<lparr> state := CLOSED, failures := 0 \<rparr>"
  by (simp add: execute_def)

lemma half_open_success_closes:
  "state b = HALF_OPEN \<Longrightarrow>
   breaker (execute maxFailures resetTimeout b now (Inr r) failTime)
     = b\<lparr> state := CLOSED, failures := 0 \<rparr>"
  by (simp add: execute_def)

lemma trial_failure:
  "state b = OPEN \<Longrightarrow> now - lastFailureTime b > resetTimeout \<Longrightarrow>
   breaker (execute maxFailures resetTimeout b now (Inl e) failTime)
     = \<lparr> failures = 1, lastFailureTime = failTime,
         state = (if maxFailures \<le> 1 then OPEN else HALF_OPEN) \<rparr>"
  by (simp add: execute_def Let_def)

lemma closed_failure:
  "state b = CLOSED \<Longrightarrow>
   breaker (execute maxFailures resetTimeout b now (Inl e) failTime)
     = \<lparr> failures = failures b + 1, lastFailureTime = failTime,
         state = (if maxFailures \<le> failures b + 1 then OPEN else CLOSED) \<rparr>"
  by (simp add: execute_def Let_def)

lemma failures_below_threshold:
  "state b = CLOSED \<Longrightarrow> failures b + int (length ts) < maxFailures \<Longrightarrow>
   state (executeAll maxFailures resetTimeout b (map (\<lambda>t. (t, Inl e :: string + 'a, t)) ts)) = CLOSED
   \<and> failures (executeAll maxFailures resetTimeout b (map (\<lambda>t. (t, Inl e :: string + 'a, t)) ts))
       = failures b + int (length ts)"
proof (induction ts arbitrary: b)
  case Nil
  then show ?case by simp
next
  case (Cons t ts)
  define b' where "b' = breaker (execute maxFailures resetTimeout b t (Inl e :: string + 'a) t)"
  have b': "state b' = CLOSED" "failures b' = failures b + 1"
    using Cons.prems by (simp_all add: closed_failure b'_def)
  have "failures b' + int (length ts) < maxFailures" using b'(2) Cons.prems(2) by simp
  from Cons.IH [OF b'(1) this] b'(2) show ?case by (simp add: b'_def)
qed

lemma executeAll_append:
  "executeAll maxFailures resetTimeout b (xs @ ys)
     = executeAll maxFailures resetTimeout (executeAll maxFailures resetTimeout b xs) ys"
  by (induction xs arbitrary: b) auto

lemma threshold_failures_open:
  assumes "0 < length ts" and "int (length ts) = maxFailures"
  shows "state (executeAll maxFailures resetTimeout createCircuitBreaker
                  (map (\<lambda>t. (t, Inl e :: string + 'a, t)) ts)) = OPEN"
proof -
  from assms(1) obtain us u where ts: "ts = us @ [u]"
    by (metis length_greater_0_conv rev_exhaust)
  define b where "b = executeAll maxFailures resetTimeout createCircuitBreaker
              (map (\<lambda>t. (t, Inl e :: string + 'a, t)) us)"
  have "state b = CLOSED \<and> failures b = failures createCircuitBreaker + int (length us)"
    unfolding b_def using assms(2) ts
    by (intro failures_below_threshold) (simp_all add: createCircuitBreaker_def)
  then have b: "state b = CLOSED" "failures b = int (length us)"
    by (simp_all add: createCircuitBreaker_def)
  have "executeAll maxFailures resetTimeout createCircuitBreaker
          (map (\<lambda>t. (t, Inl e :: string + 'a, t)) ts)
      = breaker (execute maxFailures resetTimeout b u (Inl e :: string + 'a) u)"
    by (simp add: ts executeAll_append b_def)
  also have "state \<dots> = OPEN" using b assms(2) ts by (simp add: closed_failure)
  finally show ?thesis .
qed

text \<open>
  C1, at the failing input. The claim has a single failure in HALF_OPEN reopen the breaker,
  and one trial call allowed there. A breaker of threshold 2 and reset timeout 1000 ms is
  OPEN after failures at 0 and 1 and rejects a call at 500 without invoking the
  operation, as the claim says. The trial call at 2000 fails: the breaker stays HALF_OPEN,
  its counter at 1 (the counter was reset to 0 on entering HALF_OPEN and the \<open>catch\<close>
  block opens the breaker only at the threshold), and the next call, at 2001, invokes the
  operation again.
\<close>

theorem half_open_failure_stays_half_open:
  "state (executeAll 2 1000 createCircuitBreaker [failingCall 0, failingCall 1]) = OPEN
   \<and> invoked (execute 2 1000 (executeAll 2 1000 createCircuitBreaker [failingCall 0, failingCall 1])
        500 (Inl ''connection refused'' :: string + unit) 500) = False
   \<and> state (executeAll 2 1000 createCircuitBreaker [failingCall 0, failingCall 1, failingCall 2000])
       = HALF_OPEN
   \<and> failures (executeAll 2 1000 createCircuitBreaker [failingCall 0, failingCall 1, failingCall 2000])
       = 1
   \<and> invoked (execute 2 1000
        (executeAll 2 1000 createCircuitBreaker [failingCall 0, failingCall 1, failingCall 2000])
        2001 (Inl ''connection refused'' :: string + unit) 2001) = True"
  by code_simp

section \<open>Properties of the rate limiter\<close>

text \<open>
  Calls taken one after the other keep the bound the claim C8 ends on: if at most
  \<open>maxRequests\<close> recorded timestamps lie in the window when \<open>wait\<close> is called, at most
  \<open>maxRequests\<close> lie in the window that ends when it returns.
\<close>

lemma fold_min_in_set: "fold min rs (r :: int) \<in> set (r # rs)"
proof (induction rs arbitrary: r)
  case Nil
  then show ?case by simp
next
  case (Cons x xs)
  have "fold min xs (min x r) \<in> set (min x r # xs)" by (rule Cons.IH)
  moreover have "min x r = x \<or> min x r = r" by (simp add: min_def)
  ultimately show ?case by auto
qed

lemma wait_requests: "requests (fst (wait rl now)) = inWindow rl now @ [now]"
  by (simp add: wait_def inWindow_def Let_def)

lemma wait_config:
  "maxRequests (fst (wait rl now)) = maxRequests rl" "windowMs (fst (wait rl now)) = windowMs rl"
  by (simp_all add: wait_def Let_def)

lemma wait_keeps_window_bound:
  assumes m: "1 \<le> maxRequests rl"
    and inv: "int (length (inWindow rl now)) \<le> maxRequests rl"
    and ret: "returnsAt now (snd (wait rl now)) = Some t'"
  shows "int (length (inWindow (fst (wait rl now)) t')) \<le> maxRequests rl"
proof -
  let ?reqs = "inWindow rl now"
  have win: "inWindow (fst (wait rl now)) t'
      = filter (\<lambda>timestamp. t' - timestamp < windowMs rl) (?reqs @ [now])"
    by (simp add: inWindow_def [of "fst (wait rl now)"] wait_requests wait_config)
  show ?thesis
  proof (cases "int (length ?reqs) < maxRequests rl")
    case True
    have "length (filter (\<lambda>timestamp. t' - timestamp < windowMs rl) (?reqs @ [now]))
        \<le> length (?reqs @ [now])"
      by (rule length_filter_le)
    with True show ?thesis unfolding win by simp
  next
    case False
    with inv have full: "int (length ?reqs) = maxRequests rl" by simp
    with m obtain r rs where rs: "?reqs = r # rs" by (cases ?reqs) auto
    define oldest where "oldest = fold min rs r"
    have mem: "oldest \<in> set ?reqs" unfolding oldest_def rs by (rule fold_min_in_set)
    then have fresh: "now - oldest < windowMs rl" by (simp add: inWindow_def)
    have timer: "snd (wait rl now) = Timer (windowMs rl - (now - oldest))"
      using False fresh rs
      by (simp add: wait_def Let_def oldest_def inWindow_def [symmetric])
    with ret have t': "t' = oldest + windowMs rl" by simp
    have "\<not> t' - oldest < windowMs rl" by (simp add: t')
    with mem have "length (filter (\<lambda>timestamp. t' - timestamp < windowMs rl) ?reqs) < length ?reqs"
      by (intro length_filter_less)
    then have "length (filter (\<lambda>timestamp. t' - timestamp < windowMs rl) (?reqs @ [now]))
        \<le> length ?reqs"
      by simp
    with full show ?thesis unfolding win by simp
  qed
qed

text \<open>
  C8, at the failing input. The claim has \<open>wait\<close> record the time at which the wait
  completes. With at most 1 request per 1000 ms, a first call at 0 returns at once; a
  second call at 1 sleeps 999 ms and returns at 1000, but the timestamp it records is 1,
  the clock read before the sleep. That timestamp leaves the window at 1001, so a third
  call at 1001 returns at once: two calls return within 1 ms of each other.
\<close>

theorem wait_records_the_time_of_the_call:
  "wait (newRateLimiter 1 1000) 0
     = (\<lparr> requests = [0], maxRequests = 1, windowMs = 1000 \<rparr>, NoTimer)
   \<and> wait (fst (wait (newRateLimiter 1 1000) 0)) 1
     = (\<lparr> requests = [0, 1], maxRequests = 1, windowMs = 1000 \<rparr>, Timer 999)
   \<and> returnsAt 1 (snd (wait (fst (wait (newRateLimiter 1 1000) 0)) 1)) = Some 1000
   \<and> wait (fst (wait (fst (wait (newRateLimiter 1 1000) 0)) 1)) 1001
     = (\<lparr> requests = [1001], maxRequests = 1, windowMs = 1000 \<rparr>, NoTimer)
   \<and> returnsAt 1001 (snd (wait (fst (wait (fst (wait (newRateLimiter 1 1000) 0)) 1)) 1001))
     = Some 1001"
  by code_simp

section \<open>Properties of the data processor\<close>

text \<open>
  Where the raw records carry canonical listing ids the processor does what the claim C4
  says: no key is emitted twice as successful, and a record that succeeds is rejected as
  a duplicate when it comes again.
\<close>

lemma cleaned_id_of_listingId:
  "raw_listingId raw = Some i \<Longrightarrow> i \<noteq> [] \<Longrightarrow>
   bizBuySellId (cleanRawData y raw) = Some (cleanListingId i)"
  by (simp add: cleanRawData_def truthyString_def)

lemma valid_data:
  "isValid (validateData y d) \<Longrightarrow>
   \<exists>l. v_data (validateData y d) = Some l \<and> bizBuySellId d = Some (bl_bizBuySellId l)
       \<and> bl_bizBuySellId l \<noteq> []"
  by (auto simp add: validateData_def validationErrors_def truthyString_def Let_def
      split: if_splits option.splits)

lemma invalid_data: "\<not> isValid (validateData y d) \<Longrightarrow> v_data (validateData y d) = None"
  by (simp add: validateData_def Let_def split: if_splits)

text \<open>The three ways \<open>processListing\<close> ends for a record with a canonical id.\<close>

lemma processListing_duplicate:
  assumes "raw_listingId raw = Some i" "i \<noteq> []" "i \<in> seenListingIds dp"
  shows "processListing y dp raw =
     (\<lparr> p_success = False, p_data = None, errors = [''Duplicate listing ID detected''],
        warnings = [], originalData = raw \<rparr>,
      dp\<lparr> stats := (stats dp)\<lparr> totalProcessed := totalProcessed (stats dp) + 1,
                               duplicates := duplicates (stats dp) + 1 \<rparr> \<rparr>)"
  using assms by (simp add: processListing_def truthyString_def Let_def)

lemma processListing_success:
  assumes "raw_listingId raw = Some i" "i \<noteq> []" "cleanListingId i = i"
    and "p_success (fst (processListing y dp raw))"
  shows "i \<notin> seenListingIds dp"
    and "\<exists>l. p_data (fst (processListing y dp raw)) = Some l \<and> bl_bizBuySellId l = i"
    and "seenListingIds (snd (processListing y dp raw)) = insert i (seenListingIds dp)"
proof -
  show notin: "i \<notin> seenListingIds dp"
    using assms by (auto simp add: processListing_def truthyString_def Let_def split: if_splits)
  then have eq: "processListing y dp raw =
      (let st1 = (stats dp)\<lparr> totalProcessed := totalProcessed (stats dp) + 1 \<rparr>;
           validationResult = validateData y (cleanRawData y raw);
           st2 = (if isValid validationResult
                  then st1\<lparr> successful := successful st1 + 1 \<rparr>
                  else st1\<lparr> failed := failed st1 + 1 \<rparr>);
           seen2 = (case v_data validationResult of
                      None \<Rightarrow> seenListingIds dp
                    | Some listing \<Rightarrow>
                        if isValid validationResult \<and> bl_bizBuySellId listing \<noteq> []
                        then insert (bl_bizBuySellId listing) (seenListingIds dp)
                        else seenListingIds dp);
           st3 = (if v_warnings validationResult \<noteq> []
                  then st2\<lparr> warningsCount := warningsCount st2 + 1 \<rparr> else st2)
       in (\<lparr> p_success = isValid validationResult,
             p_data = (if isValid validationResult then v_data validationResult else None),
             errors = (if isValid validationResult then [] else v_errors validationResult),
             warnings = v_warnings validationResult,
             originalData = raw \<rparr>,
           \<lparr> seenListingIds = seen2, stats = st3 \<rparr>))"
    using assms(1) by (simp add: processListing_def Let_def)
  from assms(4) have valid: "isValid (validateData y (cleanRawData y raw))"
    by (simp add: eq Let_def)
  from valid_data [OF valid] cleaned_id_of_listingId [OF assms(1,2)] assms(3)
  obtain l where l: "v_data (validateData y (cleanRawData y raw)) = Some l"
      "bl_bizBuySellId l = i"
    by auto
  show "\<exists>l. p_data (fst (processListing y dp raw)) = Some l \<and> bl_bizBuySellId l = i"
    using valid l by (simp add: eq Let_def)
  show "seenListingIds (snd (processListing y dp raw)) = insert i (seenListingIds dp)"
    using valid l assms(2) by (simp add: eq Let_def)
qed

lemma processListing_failure_seen:
  assumes "\<not> p_success (fst (processListing y dp raw))"
  shows "seenListingIds (snd (processListing y dp raw)) = seenListingIds dp"
  using assms
  by (auto simp add: processListing_def Let_def invalid_data split: if_splits option.splits)

lemma processListing_success_data:
  "p_success (fst (processListing y dp raw)) \<Longrightarrow> p_data (fst (processListing y dp raw)) \<noteq> None"
  by (auto simp add: processListing_def Let_def split: if_splits dest: valid_data)


lemma processLoop_distinct_keys:
  assumes "list_all canonicalId raws"
    and "set (map bl_bizBuySellId succ) \<subseteq> seenListingIds dp"
    and "distinct (map bl_bizBuySellId succ)"
  shows "distinct (map bl_bizBuySellId (fst (processLoop y dp raws succ fl)))
    \<and> set (map bl_bizBuySellId (fst (processLoop y dp raws succ fl)))
        \<subseteq> seenListingIds (snd (snd (processLoop y dp raws succ fl)))"
  using assms
proof (induction raws arbitrary: dp succ fl)
  case Nil
  then show ?case by simp
next
  case (Cons raw raws)
  from Cons.prems(1) obtain i where i: "raw_listingId raw = Some i" "i \<noteq> []" "cleanListingId i = i"
    by (auto simp add: canonicalId_def split: option.splits)
  from Cons.prems(1) have rest: "list_all canonicalId raws" by simp
  obtain res dp' where step: "processListing y dp raw = (res, dp')" by (cases "processListing y dp raw")
  show ?case
  proof (cases "p_success res")
    case True
    then have ok: "p_success (fst (processListing y dp raw))" by (simp add: step)
    from processListing_success [OF i ok] step
    obtain l where l: "p_data res = Some l" "bl_bizBuySellId l = i"
      and notin: "i \<notin> seenListingIds dp"
      and seen: "seenListingIds dp' = insert i (seenListingIds dp)"
      by auto
    have sub: "set (map bl_bizBuySellId (succ @ [l])) \<subseteq> seenListingIds dp'"
      using Cons.prems(2) l(2) seen by auto
    have dis: "distinct (map bl_bizBuySellId (succ @ [l]))"
      using Cons.prems(2,3) l(2) notin by auto
    from Cons.IH [OF rest sub dis, of fl] show ?thesis
      using True l(1) by (simp add: step)
  next
    case False
    then have "seenListingIds dp' = seenListingIds dp"
      using processListing_failure_seen [of y dp raw] by (simp add: step)
    with Cons.prems(2) have sub: "set (map bl_bizBuySellId succ) \<subseteq> seenListingIds dp'" by simp
    from Cons.IH [OF rest sub Cons.prems(3), of "fl @ [res]"] show ?thesis
      using False by (simp add: step split: option.splits)
  qed
qed

lemma processBatch_distinct_keys:
  "list_all canonicalId raws \<Longrightarrow>
   distinct (map bl_bizBuySellId (batch_successful (fst (processBatch y newDataProcessor raws))))"
  using processLoop_distinct_keys [of raws "[]" newDataProcessor y "[]"]
  by (auto simp add: processBatch_def split: prod.splits)

lemma processBatch_same_record_twice:
  assumes "canonicalId raw" and "p_success (fst (processListing y dp raw))"
  shows "\<exists>l. batch_successful (fst (processBatch y dp [raw, raw])) = [l]
    \<and> batch_failed (fst (processBatch y dp [raw, raw]))
        = [\<lparr> p_success = False, p_data = None, errors = [''Duplicate listing ID detected''],
             warnings = [], originalData = raw \<rparr>]
    \<and> successful (batch_stats (fst (processBatch y dp [raw, raw])))
        = successful (stats (snd (processListing y dp raw)))
    \<and> duplicates (batch_stats (fst (processBatch y dp [raw, raw])))
        = duplicates (stats (snd (processListing y dp raw))) + 1"
proof -
  from assms(1) obtain i where i: "raw_listingId raw = Some i" "i \<noteq> []" "cleanListingId i = i"
    by (auto simp add: canonicalId_def split: option.splits)
  obtain res dp' where step: "processListing y dp raw = (res, dp')" by (cases "processListing y dp raw")
  from processListing_success [OF i assms(2)] step
  obtain l where l: "p_data res = Some l" and seen: "i \<in> seenListingIds dp'"
    by auto
  from assms(2) step have ok: "p_success res" by simp
  note dup = processListing_duplicate [OF i(1,2) seen, of y]
  show ?thesis
    using l ok by (simp add: processBatch_def step dup)
qed

text \<open>
  C4, at the failing input. The claim has no dedup key emitted twice as successful and
  the second of two equal records rejected as a duplicate. \<open>processListing\<close> looks the
  raw \<open>listingId\<close> up among the seen ids but stores the cleaned id (upper case, stripped
  of other characters), and never looks up an id taken from the URL. The record with the
  listing id "bbs-42" processed twice in one batch of a fresh processor gives two
  successful entities of key "BBS-42", no failed result and no duplicate counted; so does
  the record that has its id in the URL only, with key "BBS42".
\<close>

theorem same_record_twice_succeeds_twice:
  "map bl_bizBuySellId (batch_successful (fst (processBatch 2026 newDataProcessor [cafe, cafe])))
     = [''BBS-42'', ''BBS-42'']
   \<and> batch_failed (fst (processBatch 2026 newDataProcessor [cafe, cafe])) = []
   \<and> successful (batch_stats (fst (processBatch 2026 newDataProcessor [cafe, cafe]))) = 2
   \<and> duplicates (batch_stats (fst (processBatch 2026 newDataProcessor [cafe, cafe]))) = 0
   \<and> map bl_bizBuySellId
         (batch_successful (fst (processBatch 2026 newDataProcessor [cafeByUrl, cafeByUrl])))
     = [''BBS42'', ''BBS42'']
   \<and> duplicates (batch_stats (fst (processBatch 2026 newDataProcessor [cafeByUrl, cafeByUrl]))) = 0"
  by code_simp

text \<open>The same listing with its id in canonical form: one entity and one duplicate.\<close>

lemma canonical_record_twice:
  "canonicalId cafeCanonical
   \<and> map bl_bizBuySellId
         (batch_successful (fst (processBatch 2026 newDataProcessor [cafeCanonical, cafeCanonical])))
     = [''BBS-42'']
   \<and> map errors (batch_failed (fst (processBatch 2026 newDataProcessor [cafeCanonical, cafeCanonical])))
     = [[''Duplicate listing ID detected'']]
   \<and> duplicates (batch_stats (fst (processBatch 2026 newDataProcessor [cafeCanonical, cafeCanonical])))
     = 1"
  by code_simp

section \<open>Properties of the webhook manager\<close>

lemma attemptDelivery_failed:
  assumes "endpoints m (d_endpointId delivery) = Some endpoint" and "enabled endpoint"
    and "failedFetch (fetch (sendWebhook hmacSha256Hex stringify endpoint delivery))"
  shows "attemptDelivery hmacSha256Hex stringify fetch m delivery now
     = deliveryFailure m endpoint delivery
         (case fetch (sendWebhook hmacSha256Hex stringify endpoint delivery) of
            Response st statusText \<Rightarrow> HttpError st statusText
          | Thrown msg \<Rightarrow> FetchError msg) now"
  using assms by (simp add: attemptDelivery_def failedFetch_def split: FetchOutcome.splits)

lemma deliveryFailure_endpoint:
  "endpoints (fst (deliveryFailure m endpoint delivery err now)) (d_endpointId delivery)
     = Some (endpoint\<lparr> failureCount := failureCount endpoint + 1,
                        enabled := (if d_attempts delivery + 1 < MAX_RETRY_ATTEMPTS
                                    then enabled endpoint
                                    else enabled endpoint \<and> \<not> failureCount endpoint + 1 > 10) \<rparr>)"
  by (simp add: deliveryFailure_def Let_def)

lemma deliveryFailure_delivery:
  "d_attempts (snd (deliveryFailure m endpoint delivery err now)) = d_attempts delivery + 1
   \<and> d_status (snd (deliveryFailure m endpoint delivery err now))
       = (if d_attempts delivery + 1 < MAX_RETRY_ATTEMPTS then DeliveryRetry else DeliveryFailed)"
  by (simp add: deliveryFailure_def Let_def)

text \<open>
  C6, the claim as stated fails. It has an endpoint disabled whenever its failure counter
  exceeds 10, whether or not the failing delivery has attempts left. An enabled endpoint
  with 10 failures receives the first attempt of a delivery and answers 500: the counter
  goes to 11, the delivery is queued for retry, and the endpoint is still enabled.
\<close>

theorem endpoint_over_ceiling_stays_enabled:
  "map_option failureCount
       (endpoints (fst (attemptDelivery standInHmac id answers500 ceilingManager freshDelivery 1000))
          ''ep_1'') = Some 11
   \<and> map_option enabled
       (endpoints (fst (attemptDelivery standInHmac id answers500 ceilingManager freshDelivery 1000))
          ''ep_1'') = Some True
   \<and> d_status (snd (attemptDelivery standInHmac id answers500 ceilingManager freshDelivery 1000))
       = DeliveryRetry"
  by code_simp

text \<open>
  C6, amended. Whenever an attempt to deliver to an enabled endpoint fails, the endpoint's
  failure counter goes up by one and the delivery's attempt count by one; the endpoint is
  disabled exactly when that failure exhausts the delivery's attempts (its count reaches
  5, the delivery is marked failed for good) and the failure counter then exceeds 10.
  A failure that leaves the delivery attempts to retry leaves the endpoint enabled,
  whatever its counter.
\<close>

theorem failed_attempt_disables_on_exhaustion:
  assumes "endpoints m (d_endpointId delivery) = Some endpoint" and "enabled endpoint"
    and "failedFetch (fetch (sendWebhook hmacSha256Hex stringify endpoint delivery))"
  shows "map_option failureCount
           (endpoints (fst (attemptDelivery hmacSha256Hex stringify fetch m delivery now))
              (d_endpointId delivery)) = Some (failureCount endpoint + 1)
    \<and> map_option enabled
           (endpoints (fst (attemptDelivery hmacSha256Hex stringify fetch m delivery now))
              (d_endpointId delivery))
         = Some (\<not> (MAX_RETRY_ATTEMPTS \<le> d_attempts delivery + 1 \<and> 10 < failureCount endpoint + 1))
    \<and> d_attempts (snd (attemptDelivery hmacSha256Hex stringify fetch m delivery now))
         = d_attempts delivery + 1
    \<and> d_status (snd (attemptDelivery hmacSha256Hex stringify fetch m delivery now))
         = (if d_attempts delivery + 1 < MAX_RETRY_ATTEMPTS then DeliveryRetry else DeliveryFailed)"
proof -
  note failed = attemptDelivery_failed [where fetch = fetch and hmacSha256Hex = hmacSha256Hex
    and stringify = stringify and m = m and delivery = delivery and endpoint = endpoint
    and now = now, OF assms]
  show ?thesis
    using assms(2) by (simp add: failed deliveryFailure_endpoint deliveryFailure_delivery)
qed

theorem failed_attempt_disables_on_exhaustion_witness:
  "endpoints ceilingManager (d_endpointId (freshDelivery\<lparr> d_attempts := 4 \<rparr>)) = Some ceilingEndpoint
   \<and> enabled ceilingEndpoint
   \<and> failedFetch (answers500 (sendWebhook standInHmac id ceilingEndpoint (freshDelivery\<lparr> d_attempts := 4 \<rparr>)))
   \<and> map_option enabled
        (endpoints (fst (attemptDelivery standInHmac id answers500 ceilingManager
                           (freshDelivery\<lparr> d_attempts := 4 \<rparr>) 1000)) ''ep_1'') = Some False
   \<and> d_status (snd (attemptDelivery standInHmac id answers500 ceilingManager
                       (freshDelivery\<lparr> d_attempts := 4 \<rparr>) 1000)) = DeliveryFailed"
proof -
  have h1: "endpoints ceilingManager (d_endpointId (freshDelivery\<lparr> d_attempts := 4 \<rparr>))
      = Some ceilingEndpoint"
    by (simp add: ceilingManager_def freshDelivery_def)
  have h2: "enabled ceilingEndpoint" by (simp add: ceilingEndpoint_def)
  have h3: "failedFetch (answers500 (sendWebhook standInHmac id ceilingEndpoint
      (freshDelivery\<lparr> d_attempts := 4 \<rparr>)))"
    by (simp add: failedFetch_def answers500_def responseOk_def)
  have ev: "d_endpointId (freshDelivery\<lparr> d_attempts := 4 \<rparr>) = ''ep_1''
      \<and> d_attempts (freshDelivery\<lparr> d_attempts := 4 \<rparr>) = 4
      \<and> failureCount ceilingEndpoint = 10 \<and> MAX_RETRY_ATTEMPTS = 5"
    by (simp add: freshDelivery_def ceilingEndpoint_def MAX_RETRY_ATTEMPTS_def)
  from failed_attempt_disables_on_exhaustion [where fetch = answers500
      and hmacSha256Hex = standInHmac and stringify = id and m = ceilingManager
      and delivery = "freshDelivery\<lparr> d_attempts := 4 \<rparr>" and endpoint = ceilingEndpoint
      and now = 1000, OF h1 h2 h3] h1 h2 h3 ev
  show ?thesis by simp
qed

text \<open>
  C7. The request of every delivery attempt carries, in its signature header, "sha256="
  followed by the hex HMAC-SHA256, under the endpoint's secret, of the body it sends, and
  that body is the JSON serialisation of the delivery's payload; \<open>validateSignature\<close>
  returns true if and only if the signature equals "sha256=" followed by the hex
  HMAC-SHA256 of the payload under the secret. So a recipient that validates the body it
  received against the header it received, under the endpoint's secret, accepts.
\<close>

theorem signature_header_and_validation:
  "map_of (req_headers (sendWebhook hmacSha256Hex stringify endpoint delivery))
       ''X-Webhook-Signature-256''
     = Some (Text (''sha256='' @ hmacSha256Hex (secret endpoint)
                (req_body (sendWebhook hmacSha256Hex stringify endpoint delivery))))
   \<and> req_body (sendWebhook hmacSha256Hex stringify endpoint delivery) = stringify (d_payload delivery)
   \<and> validateSignature hmacSha256Hex payload signature sec
       = (signature = ''sha256='' @ hmacSha256Hex sec payload)
   \<and> (case map_of (req_headers (sendWebhook hmacSha256Hex stringify endpoint delivery))
              ''X-Webhook-Signature-256'' of
         Some (Text sent) \<Rightarrow>
           validateSignature hmacSha256Hex
             (req_body (sendWebhook hmacSha256Hex stringify endpoint delivery)) sent (secret endpoint)
       | _ \<Rightarrow> False)"
  by (simp add: sendWebhook_def generateSignature_def validateSignature_def Let_def)

end
